theory Spec2Isabelle
  imports Complex_Main
begin

section \<open>JavaScript numbers\<close>

text \<open>
  The actions of \<^verbatim>\<open>src/app/lib/actions.ts\<close> hand the amount field to
  \<^verbatim>\<open>z.coerce.number()\<close>, which calls \<^verbatim>\<open>Number(input)\<close>, and then compute
  \<^verbatim>\<open>amount * 100\<close>. Both are operations on IEEE 754 binary64 values, so the
  model carries them as such: a finite double is the dyadic rational \<open>m / 2 ^ k\<close>, kept
  in lowest terms (\<open>k = 0\<close> or \<open>m\<close> odd), so that equal doubles are equal terms.
  The two zeros are identified: the code only tests \<^verbatim>\<open>> 0\<close> and multiplies.
\<close>

datatype jsnum = NaN | PosInfinity | NegInfinity | Finite int nat

text \<open>The rational a finite double stands for.\<close>

fun jsnum_value :: "jsnum \<Rightarrow> rat option" where
  "jsnum_value (Finite m k) = Some (of_int m / 2 ^ k)"
| "jsnum_value _ = None"

text \<open>Number of binary digits of a positive integer.\<close>

function bitlen :: "int \<Rightarrow> int" where
  "bitlen n = (if n \<le> 0 then 0 else 1 + bitlen (n div 2))"
  by pat_completeness auto
termination
  by (relation "measure nat") auto

declare bitlen.simps [simp del]

text \<open>\<open>\<lfloor>log\<^sub>2 (p / q)\<rfloor>\<close> for positive \<open>p\<close> and \<open>q\<close>.\<close>

definition floor_log2 :: "int \<Rightarrow> int \<Rightarrow> int" where
  "floor_log2 p q =
     (let k = bitlen p - bitlen q in
      if 0 \<le> k then (if q * 2 ^ nat k \<le> p then k else k - 1)
      else (if q \<le> p * 2 ^ nat (- k) then k else k - 1))"

text \<open>The integer nearest to \<open>p / q\<close>, a tie going to the even neighbour.\<close>

definition round_half_even :: "int \<Rightarrow> int \<Rightarrow> int" where
  "round_half_even p q =
     (let d = p div q; r = p mod q in
      if 2 * r < q then d
      else if q < 2 * r then d + 1
      else if even d then d else d + 1)"

text \<open>\<open>m / 2 ^ k\<close> in lowest terms.\<close>

function dyadic :: "int \<Rightarrow> int \<Rightarrow> jsnum" where
  "dyadic m k =
     (if k \<le> 0 then Finite m 0
      else if even m then dyadic (m div 2) (k - 1)
      else Finite m (nat k))"
  by pat_completeness auto
termination
  by (relation "measure (\<lambda>(m, k). nat k)") auto

declare dyadic.simps [simp del]

text \<open>
  Round-to-nearest, ties-to-even, of the positive rational \<open>p / q\<close> to binary64: 53
  significant bits, the unit in the last place never below \<open>2 ^ - 1074\<close> (subnormals),
  and an overflow to infinity from \<open>2 ^ 1024 - 2 ^ 970\<close> on.
\<close>

definition round_pos :: "int \<Rightarrow> int \<Rightarrow> int \<times> int" where
  "round_pos p q =
     (let e = max (floor_log2 p q - 52) (- 1074);
          m = (if 0 \<le> e then round_half_even p (q * 2 ^ nat e)
               else round_half_even (p * 2 ^ nat (- e)) q)
      in (m, e))"

definition to_double :: "int \<Rightarrow> int \<Rightarrow> jsnum" where
  "to_double p q =
     (if p = 0 then Finite 0 0
      else
        (let (m, e) = round_pos \<bar>p\<bar> q in
         if 971 < e \<or> (e = 971 \<and> 2 ^ 53 \<le> m)
         then (if 0 < p then PosInfinity else NegInfinity)
         else if 0 \<le> e then Finite (sgn p * m * 2 ^ nat e) 0
         else dyadic (sgn p * m) (- e)))"

text \<open>The \<^verbatim>\<open>*\<close> of the language on two numbers.\<close>

fun js_mul :: "jsnum \<Rightarrow> jsnum \<Rightarrow> jsnum" where
  "js_mul NaN _ = NaN"
| "js_mul _ NaN = NaN"
| "js_mul (Finite m k) (Finite n l) = to_double (m * n) (2 ^ (k + l))"
| "js_mul (Finite m k) PosInfinity =
     (if m = 0 then NaN else if 0 < m then PosInfinity else NegInfinity)"
| "js_mul (Finite m k) NegInfinity =
     (if m = 0 then NaN else if 0 < m then NegInfinity else PosInfinity)"
| "js_mul PosInfinity (Finite n l) =
     (if n = 0 then NaN else if 0 < n then PosInfinity else NegInfinity)"
| "js_mul NegInfinity (Finite n l) =
     (if n = 0 then NaN else if 0 < n then NegInfinity else PosInfinity)"
| "js_mul PosInfinity PosInfinity = PosInfinity"
| "js_mul PosInfinity NegInfinity = NegInfinity"
| "js_mul NegInfinity PosInfinity = NegInfinity"
| "js_mul NegInfinity NegInfinity = PosInfinity"

text \<open>The comparison \<^verbatim>\<open>a <= b\<close>: false as soon as one side is NaN.\<close>

fun js_le :: "jsnum \<Rightarrow> jsnum \<Rightarrow> bool" where
  "js_le NaN _ = False"
| "js_le _ NaN = False"
| "js_le NegInfinity _ = True"
| "js_le _ PosInfinity = True"
| "js_le PosInfinity _ = False"
| "js_le _ NegInfinity = False"
| "js_le (Finite m k) (Finite n l) = (m * 2 ^ l \<le> n * 2 ^ k)"


section \<open>Coercion of a string to a number\<close>

text \<open>
  \<^verbatim>\<open>Number(s)\<close> on a string is the language's StringToNumber: white space is
  trimmed, the empty string is \<open>0\<close>, then the text has to be a StrNumericLiteral as a
  whole (a signed decimal literal with optional fraction and exponent, the word
  Infinity, or an unsigned literal in radix 16, 8 or 2), and anything else is NaN.
  Strings are lists of 8-bit characters here, so of the white space and line terminator
  characters the model has the seven below \<open>256\<close>.
\<close>

definition isStrWhiteSpaceChar :: "char \<Rightarrow> bool" where
  "isStrWhiteSpaceChar c =
     ((of_char c :: nat) \<in> {0x09, 0x0A, 0x0B, 0x0C, 0x0D, 0x20, 0xA0})"

definition trimString :: "string \<Rightarrow> string" where
  "trimString s =
     rev (dropWhile isStrWhiteSpaceChar (rev (dropWhile isStrWhiteSpaceChar s)))"

text \<open>The value of a digit in a radix up to 16; None for any other character.\<close>

definition digitValue :: "nat \<Rightarrow> char \<Rightarrow> int option" where
  "digitValue radix c =
     (let n = (of_char c :: nat);
          v = (if 48 \<le> n \<and> n \<le> 57 then Some (n - 48)
               else if 97 \<le> n \<and> n \<le> 102 then Some (n - 87)
               else if 65 \<le> n \<and> n \<le> 70 then Some (n - 55)
               else None)
      in case v of
           None \<Rightarrow> None
         | Some d \<Rightarrow> if d < radix then Some (int d) else None)"

definition isDecimalDigit :: "char \<Rightarrow> bool" where
  "isDecimalDigit c = (digitValue 10 c \<noteq> None)"

text \<open>The integer a run of digits denotes, most significant digit first.\<close>

fun digitsValue :: "nat \<Rightarrow> int \<Rightarrow> string \<Rightarrow> int" where
  "digitsValue radix acc [] = acc"
| "digitsValue radix acc (c # cs) =
     digitsValue radix (acc * int radix + (case digitValue radix c of Some d \<Rightarrow> d | None \<Rightarrow> 0)) cs"

definition allDigits :: "nat \<Rightarrow> string \<Rightarrow> bool" where
  "allDigits radix s = (s \<noteq> [] \<and> list_all (\<lambda>c. digitValue radix c \<noteq> None) s)"

text \<open>NonDecimalIntegerLiteral: the digits after the prefix, in the given radix.\<close>

definition radixLiteral :: "nat \<Rightarrow> string \<Rightarrow> jsnum" where
  "radixLiteral radix ds =
     (if allDigits radix ds then to_double (digitsValue radix 0 ds) 1 else NaN)"

text \<open>ExponentPart, or nothing: the exponent, None when the rest is no exponent.\<close>

definition exponentPart :: "string \<Rightarrow> int option" where
  "exponentPart r =
     (case r of
        [] \<Rightarrow> Some 0
      | c # r' \<Rightarrow>
          if c = CHR ''e'' \<or> c = CHR ''E'' then
            (case r' of
               [] \<Rightarrow> None
             | s # ds \<Rightarrow>
                 if s = CHR ''+'' then
                   (if allDigits 10 ds then Some (digitsValue 10 0 ds) else None)
                 else if s = CHR ''-'' then
                   (if allDigits 10 ds then Some (- digitsValue 10 0 ds) else None)
                 else (if allDigits 10 r' then Some (digitsValue 10 0 r') else None))
          else None)"

text \<open>
  StrUnsignedDecimalLiteral, with the sign already read: \<open>sg\<close> is \<open>1\<close> or \<open>- 1\<close>.
  The mathematical value \<open>digits * 10 ^ (exponent - length of the fraction)\<close> is rounded
  once, to the nearest double.
\<close>

definition unsignedDecimalLiteral :: "int \<Rightarrow> string \<Rightarrow> jsnum" where
  "unsignedDecimalLiteral sg r =
     (if r = ''Infinity'' then (if 0 < sg then PosInfinity else NegInfinity)
      else
        (let ip = takeWhile isDecimalDigit r;
             r1 = dropWhile isDecimalDigit r;
             (fp, r2) =
                (case r1 of
                   [] \<Rightarrow> ([], r1)
                 | c # r' \<Rightarrow>
                     if c = CHR ''.''
                     then (takeWhile isDecimalDigit r', dropWhile isDecimalDigit r')
                     else ([], r1))
         in if ip = [] \<and> fp = [] then NaN
            else
              (case exponentPart r2 of
                 None \<Rightarrow> NaN
               | Some x \<Rightarrow>
                   (let n = sg * digitsValue 10 0 (ip @ fp);
                        x' = x - int (length fp)
                    in if 0 \<le> x' then to_double (n * 10 ^ nat x') 1
                       else to_double n (10 ^ nat (- x'))))))"

definition StringToNumber :: "string \<Rightarrow> jsnum" where
  "StringToNumber s =
     (let t = trimString s in
      case t of
        [] \<Rightarrow> Finite 0 0
      | c # r \<Rightarrow>
          if c = CHR ''+'' then unsignedDecimalLiteral 1 r
          else if c = CHR ''-'' then unsignedDecimalLiteral (- 1) r
          else if c = CHR ''0'' \<and> r \<noteq> [] \<and> hd r \<in> {CHR ''x'', CHR ''X''}
            then radixLiteral 16 (tl r)
          else if c = CHR ''0'' \<and> r \<noteq> [] \<and> hd r \<in> {CHR ''o'', CHR ''O''}
            then radixLiteral 8 (tl r)
          else if c = CHR ''0'' \<and> r \<noteq> [] \<and> hd r \<in> {CHR ''b'', CHR ''B''}
            then radixLiteral 2 (tl r)
          else unsignedDecimalLiteral 1 t)"


section \<open>Values and form data\<close>

text \<open>
  The values the actions handle: what \<^verbatim>\<open>FormData.get\<close> returns (a string, a File
  or null), the numbers the schema coerces to, and undefined for a property an object
  does not have.
\<close>

datatype jsval = Undefined | Null | JString string | JNumber jsnum | JFile string

text \<open>\<^verbatim>\<open>Number(v)\<close>: null is \<open>0\<close>; an object that is not a primitive goes through its
  string form, \<^verbatim>\<open>[object File]\<close> for a File, which is no numeric literal.\<close>

fun Number :: "jsval \<Rightarrow> jsnum" where
  "Number Undefined = NaN"
| "Number Null = Finite 0 0"
| "Number (JString s) = StringToNumber s"
| "Number (JNumber n) = n"
| "Number (JFile f) = NaN"

text \<open>\<^verbatim>\<open>a * b\<close> on any two values: both operands are converted to numbers first.\<close>

definition js_times :: "jsval \<Rightarrow> jsval \<Rightarrow> jsval" where
  "js_times a b = JNumber (js_mul (Number a) (Number b))"

datatype formDataEntryValue = EntryString string | EntryFile string

type_synonym formData = "(string \<times> formDataEntryValue) list"

text \<open>\<^verbatim>\<open>formData.get(name)\<close>: the first entry of that name, or null.\<close>

definition formData_get :: "formData \<Rightarrow> string \<Rightarrow> jsval" where
  "formData_get fd name =
     (case map_of fd name of
        None \<Rightarrow> Null
      | Some (EntryString s) \<Rightarrow> JString s
      | Some (EntryFile f) \<Rightarrow> JFile f)"

text \<open>An object literal, and the read of one of its properties.\<close>

type_synonym jsobject = "(string \<times> jsval) list"

definition property :: "jsobject \<Rightarrow> string \<Rightarrow> jsval" where
  "property obj k = (case map_of obj k of None \<Rightarrow> Undefined | Some v \<Rightarrow> v)"


section \<open>The schema library\<close>

text \<open>
  \<^verbatim>\<open>FormSchema\<close> is built from the validation library's \<^verbatim>\<open>z.string\<close>,
  \<^verbatim>\<open>z.coerce.number().gt\<close>, \<^verbatim>\<open>z.enum\<close>, \<^verbatim>\<open>z.object\<close> and \<^verbatim>\<open>omit\<close>, read
  through \<^verbatim>\<open>safeParse\<close> and \<^verbatim>\<open>error.flatten().fieldErrors\<close>. The library is
  version 3 (the \<^verbatim>\<open>invalid_type_error\<close> parameter is its interface); the model
  follows its parsers for these constructors.
\<close>

fun getParsedType :: "jsval \<Rightarrow> string" where
  "getParsedType Undefined = ''undefined''"
| "getParsedType Null = ''null''"
| "getParsedType (JString s) = ''string''"
| "getParsedType (JNumber n) = (if n = NaN then ''nan'' else ''number'')"
| "getParsedType (JFile f) = ''object''"

datatype zodIssueCode = invalid_type | invalid_enum_value | too_small

datatype zodIssue = ZodIssue zodIssueCode "string list" string

fun issue_path :: "zodIssue \<Rightarrow> string list" where
  "issue_path (ZodIssue c p m) = p"

fun issue_message :: "zodIssue \<Rightarrow> string" where
  "issue_message (ZodIssue c p m) = m"

text \<open>A check of a number schema: \<^verbatim>\<open>{kind: "min", value, inclusive, message}\<close>.\<close>

datatype zodCheck = MinCheck jsnum bool string

text \<open>
  The schema constructors in use. \<open>ZodString\<close> and \<open>ZodEnum\<close> carry the
  \<^verbatim>\<open>invalid_type_error\<close> of their parameters when one is given; \<open>ZodNumber\<close>
  carries its \<^verbatim>\<open>coerce\<close> flag and its checks.
\<close>

datatype zodType =
    ZodString "string option"
  | ZodNumber bool "zodCheck list"
  | ZodEnum "string list" "string option"

text \<open>\<^verbatim>\<open>.gt(value, {message})\<close> adds a strict lower bound.\<close>

fun gt :: "jsnum \<Rightarrow> string \<Rightarrow> zodType \<Rightarrow> zodType" where
  "gt v m (ZodNumber c cs) = ZodNumber c (cs @ [MinCheck v False m])"
| "gt v m t = t"

text \<open>The library's default messages.\<close>

definition quoted :: "string \<Rightarrow> string" where
  "quoted s = [CHR 0x27] @ s @ [CHR 0x27]"

fun joinValues :: "string list \<Rightarrow> string" where
  "joinValues [] = []"
| "joinValues [v] = quoted v"
| "joinValues (v # vs) = quoted v @ '' | '' @ joinValues vs"

definition defaultInvalidType :: "string \<Rightarrow> string \<Rightarrow> string" where
  "defaultInvalidType expected received =
     (if received = ''undefined'' then ''Required''
      else ''Expected '' @ expected @ '', received '' @ received)"

definition defaultInvalidEnumValue :: "string list \<Rightarrow> string \<Rightarrow> string" where
  "defaultInvalidEnumValue options received =
     ''Invalid enum value. Expected '' @ joinValues options @ '', received '' @ quoted received"

text \<open>
  The error map a schema gets from its parameters: it speaks only for an
  \<^verbatim>\<open>invalid_type\<close> issue, and for undefined data it would use
  \<^verbatim>\<open>required_error\<close>, which no schema of \<^verbatim>\<open>FormSchema\<close> gives.
\<close>

definition customMap :: "string option \<Rightarrow> zodIssueCode \<Rightarrow> jsval \<Rightarrow> string \<Rightarrow> string" where
  "customMap invalid_type_error c data defaultError =
     (if c \<noteq> invalid_type then defaultError
      else if data = Undefined then defaultError
      else (case invalid_type_error of None \<Rightarrow> defaultError | Some m \<Rightarrow> m))"

text \<open>One check of a number: \<^verbatim>\<open>inclusive ? data < value : data <= value\<close>.\<close>

fun js_lt :: "jsnum \<Rightarrow> jsnum \<Rightarrow> bool" where
  "js_lt a b = (js_le a b \<and> a \<noteq> b)"

fun runCheck :: "string list \<Rightarrow> jsnum \<Rightarrow> zodCheck \<Rightarrow> zodIssue list" where
  "runCheck path n (MinCheck v inclusive m) =
     (if (if inclusive then js_lt n v else js_le n v)
      then [ZodIssue too_small path m] else [])"

text \<open>The parser of each schema: the issues, or the parsed value.\<close>

fun zodParse :: "zodType \<Rightarrow> string list \<Rightarrow> jsval \<Rightarrow> zodIssue list + jsval" where
  "zodParse (ZodString ite) path v =
     (if getParsedType v \<noteq> ''string''
      then Inl [ZodIssue invalid_type path
                  (customMap ite invalid_type v (defaultInvalidType ''string'' (getParsedType v)))]
      else Inr v)"
| "zodParse (ZodNumber coerce checks) path v =
     (let d = (if coerce then JNumber (Number v) else v) in
      if getParsedType d \<noteq> ''number''
      then Inl [ZodIssue invalid_type path (defaultInvalidType ''number'' (getParsedType d))]
      else
        (let issues = concat (map (runCheck path (Number d)) checks) in
         if issues = [] then Inr d else Inl issues))"
| "zodParse (ZodEnum values ite) path v =
     (case v of
        JString s \<Rightarrow>
          if s \<in> set values then Inr v
          else Inl [ZodIssue invalid_enum_value path
                      (customMap ite invalid_enum_value v (defaultInvalidEnumValue values s))]
      | _ \<Rightarrow>
          Inl [ZodIssue invalid_type path
                 (customMap ite invalid_type v
                    (defaultInvalidType (joinValues values) (getParsedType v)))])"

text \<open>An object schema is its shape, in declaration order; \<^verbatim>\<open>omit\<close> drops keys.\<close>

type_synonym zodObject = "(string \<times> zodType) list"

definition omit :: "zodObject \<Rightarrow> string list \<Rightarrow> zodObject" where
  "omit shape ks = filter (\<lambda>(k, t). k \<notin> set ks) shape"

datatype safeParseReturn = ParseSuccess jsobject | ParseError "zodIssue list"

text \<open>
  \<^verbatim>\<open>safeParse\<close> of an object: every key of the shape is parsed, a missing property
  reading as undefined; the issues of all keys are collected, and keys outside the
  shape are dropped from the data.
\<close>

fun parseShape :: "zodObject \<Rightarrow> jsobject \<Rightarrow> zodIssue list \<times> jsobject" where
  "parseShape [] obj = ([], [])"
| "parseShape ((k, t) # shape) obj =
     (let (issues, data) = parseShape shape obj in
      case zodParse t [k] (property obj k) of
        Inl is \<Rightarrow> (is @ issues, data)
      | Inr v \<Rightarrow> (issues, (k, v) # data))"

definition safeParse :: "zodObject \<Rightarrow> jsobject \<Rightarrow> safeParseReturn" where
  "safeParse shape obj =
     (let (issues, data) = parseShape shape obj in
      if issues = [] then ParseSuccess data else ParseError issues)"

text \<open>\<^verbatim>\<open>error.flatten().fieldErrors\<close>: the messages of the issues, by first path
  element, in the order of the issues.\<close>

fun pushMessage :: "(string \<times> string list) list \<Rightarrow> string \<Rightarrow> string \<Rightarrow> (string \<times> string list) list" where
  "pushMessage [] k m = [(k, [m])]"
| "pushMessage ((k', ms) # rest) k m =
     (if k' = k then (k', ms @ [m]) # rest else (k', ms) # pushMessage rest k m)"

definition fieldErrors :: "zodIssue list \<Rightarrow> (string \<times> string list) list" where
  "fieldErrors issues =
     foldl (\<lambda>acc i. case issue_path i of [] \<Rightarrow> acc | k # ks \<Rightarrow> pushMessage acc k (issue_message i))
       [] issues"


section \<open>The clock\<close>

text \<open>
  \<^verbatim>\<open>new Date().toISOString().split('T')[0]\<close>. A date is its time value, the
  milliseconds since the epoch; \<^verbatim>\<open>toISOString\<close> prints its UTC fields as
  \<^verbatim>\<open>YYYY-MM-DDTHH:mm:ss.sssZ\<close>, the year with a sign and six digits outside
  \<open>0 .. 9999\<close>.
\<close>

function decimalString :: "int \<Rightarrow> string" where
  "decimalString n =
     (if n < 10 then [''0123456789'' ! nat n]
      else decimalString (n div 10) @ [''0123456789'' ! nat (n mod 10)])"
  by pat_completeness auto
termination
  by (relation "measure nat") auto

declare decimalString.simps [simp del]

definition padStart :: "nat \<Rightarrow> string \<Rightarrow> string" where
  "padStart n s = replicate (n - length s) CHR ''0'' @ s"

text \<open>
  The UTC fields of a time value, as the language defines them: \<^verbatim>\<open>Day(t)\<close> is the
  number of whole days since the epoch, \<^verbatim>\<open>DayFromYear(y)\<close> the day number of the
  first of January of year \<open>y\<close>, and \<^verbatim>\<open>YearFromTime(t)\<close> the largest year whose first
  day is not after \<open>t\<close>. The search for that year starts from an estimate and walks one
  year at a time; it ends because \<^verbatim>\<open>DayFromYear\<close> grows by a year's length at every
  step, which the lemmas before it establish.
\<close>

definition msPerDay :: int where
  "msPerDay = 86400000"

definition Day :: "int \<Rightarrow> int" where
  "Day t = t div msPerDay"

definition DaysInYear :: "int \<Rightarrow> int" where
  "DaysInYear y =
     (if y mod 4 \<noteq> 0 then 365
      else if y mod 100 \<noteq> 0 then 366
      else if y mod 400 \<noteq> 0 then 365
      else 366)"

definition DayFromYear :: "int \<Rightarrow> int" where
  "DayFromYear y =
     365 * (y - 1970) + (y - 1969) div 4 - (y - 1901) div 100 + (y - 1601) div 400"

lemma div_step:
  fixes x k :: int
  assumes "0 < k"
  shows "(x + 1) div k = x div k + (if k dvd x + 1 then 1 else 0)"
proof -
  define q where "q = x div k"
  define r where "r = x mod k"
  have x: "x = q * k + r" and r: "0 \<le> r" "r < k"
    using assms by (simp_all add: q_def r_def)
  show ?thesis
  proof (cases "r + 1 = k")
    case True
    then have e: "x + 1 = (q + 1) * k"
      using x by (simp add: algebra_simps)
    have "(x + 1) div k = q + 1"
      unfolding e using assms by simp
    moreover have "k dvd x + 1"
      unfolding e by simp
    ultimately show ?thesis
      by (simp add: q_def)
  next
    case False
    then have r1: "0 \<le> r + 1" "r + 1 < k"
      using r by simp_all
    have e: "x + 1 = q * k + (r + 1)"
      using x by simp
    have d: "(x + 1) div k = q"
      unfolding e using r1 assms by simp
    have m: "(x + 1) mod k = r + 1"
      unfolding e using r1 assms by simp
    have "\<not> k dvd x + 1"
      using m r by (simp add: dvd_eq_mod_eq_0)
    then show ?thesis
      using d by (simp add: q_def)
  qed
qed

lemma dvd_100_4: "(100::int) dvd y \<Longrightarrow> 4 dvd y"
  by (rule dvd_trans [of 4 100 y]) simp_all

lemma dvd_400_100: "(400::int) dvd y \<Longrightarrow> 100 dvd y"
  by (rule dvd_trans [of 100 400 y]) simp_all

lemma DaysInYear_dvd:
  "DaysInYear y = (if 4 dvd y \<and> (\<not> 100 dvd y \<or> 400 dvd y) then 366 else 365)"
proof -
  have m: "y mod 4 = 0 \<longleftrightarrow> 4 dvd y" "y mod 100 = 0 \<longleftrightarrow> 100 dvd y"
    "y mod 400 = 0 \<longleftrightarrow> 400 dvd y"
    by (rule mod_eq_0_iff_dvd)+
  show ?thesis
    unfolding DaysInYear_def m
    using dvd_100_4 [of y] dvd_400_100 [of y] by (simp only: split: if_split) blast
qed

lemma div_next_4: "((y::int) - 1968) div 4 = (y - 1969) div 4 + (if 4 dvd y then 1 else 0)"
proof -
  have d: "4 dvd (y - 1968) \<longleftrightarrow> 4 dvd y"
    using dvd_diff_left_iff [of 4 1968 y] by simp
  have e: "y - 1969 + 1 = y - 1968"
    by simp
  show ?thesis
    using div_step [of 4 "y - 1969"] unfolding e d by simp
qed

lemma div_next_100: "((y::int) - 1900) div 100 = (y - 1901) div 100 + (if 100 dvd y then 1 else 0)"
proof -
  have d: "100 dvd (y - 1900) \<longleftrightarrow> 100 dvd y"
    using dvd_diff_left_iff [of 100 1900 y] by simp
  have e: "y - 1901 + 1 = y - 1900"
    by simp
  show ?thesis
    using div_step [of 100 "y - 1901"] unfolding e d by simp
qed

lemma div_next_400: "((y::int) - 1600) div 400 = (y - 1601) div 400 + (if 400 dvd y then 1 else 0)"
proof -
  have d: "400 dvd (y - 1600) \<longleftrightarrow> 400 dvd y"
    using dvd_diff_left_iff [of 400 1600 y] by simp
  have e: "y - 1601 + 1 = y - 1600"
    by simp
  show ?thesis
    using div_step [of 400 "y - 1601"] unfolding e d by simp
qed

lemma DayFromYear_next: "DayFromYear (y + 1) = DayFromYear y + DaysInYear y"
proof -
  have e: "y + 1 - 1970 = y - 1969" "y + 1 - 1969 = y - 1968" "y + 1 - 1901 = y - 1900"
    "y + 1 - 1601 = y - 1600"
    by simp_all
  have l: "DayFromYear (y + 1) =
      365 * (y - 1970) + 365 + ((y - 1969) div 4 + (if 4 dvd y then 1 else 0))
        - ((y - 1901) div 100 + (if 100 dvd y then 1 else 0))
        + ((y - 1601) div 400 + (if 400 dvd y then 1 else 0))"
    unfolding DayFromYear_def e div_next_4 div_next_100 div_next_400 by simp
  show ?thesis
  proof (cases "4 dvd y")
    case False
    then have "\<not> 100 dvd y" "\<not> 400 dvd y"
      using dvd_100_4 [of y] dvd_400_100 [of y] by blast+
    then show ?thesis
      using False by (simp add: l DaysInYear_dvd DayFromYear_def [of y])
  next
    case d4: True
    show ?thesis
    proof (cases "100 dvd y")
      case False
      then have "\<not> 400 dvd y"
        using dvd_400_100 [of y] by blast
      then show ?thesis
        using d4 False by (simp add: l DaysInYear_dvd DayFromYear_def [of y])
    next
      case d100: True
      show ?thesis
        using d4 d100
        by (cases "400 dvd y") (simp_all add: l DaysInYear_dvd DayFromYear_def [of y])
    qed
  qed
qed

lemma DaysInYear_range: "DaysInYear y = 365 \<or> DaysInYear y = 366"
  by (simp add: DaysInYear_def)

lemma DayFromYear_less: "DayFromYear y < DayFromYear (y + 1)"
  using DaysInYear_range [of y] by (auto simp add: DayFromYear_next)

lemma DayFromYear_prev: "DayFromYear (y - 1) < DayFromYear y"
  using DayFromYear_less [of "y - 1"] by simp

function yearSearch :: "int \<Rightarrow> int \<Rightarrow> int" where
  "yearSearch day y =
     (if day < DayFromYear y then yearSearch day (y - 1)
      else if DayFromYear (y + 1) \<le> day then yearSearch day (y + 1)
      else y)"
  by pat_completeness auto
termination
proof (relation "measure (\<lambda>(day, y). nat (max (DayFromYear y - day) (day - DayFromYear (y + 1) + 1)))")
  show "wf (measure (\<lambda>(day, y). nat (max (DayFromYear y - day) (day - DayFromYear (y + 1) + 1))))"
    by simp
next
  fix day y :: int
  assume "day < DayFromYear y"
  then show "((day, y - 1), (day, y)) \<in>
      measure (\<lambda>(day, y). nat (max (DayFromYear y - day) (day - DayFromYear (y + 1) + 1)))"
    using DayFromYear_prev [of y] DayFromYear_less [of y] by simp
next
  fix day y :: int
  assume "\<not> day < DayFromYear y" "DayFromYear (y + 1) \<le> day"
  then show "((day, y + 1), (day, y)) \<in>
      measure (\<lambda>(day, y). nat (max (DayFromYear y - day) (day - DayFromYear (y + 1) + 1)))"
    using DayFromYear_less [of "y + 1"] DayFromYear_less [of y] by (simp add: algebra_simps)
qed

declare yearSearch.simps [simp del]

definition YearFromTime :: "int \<Rightarrow> int" where
  "YearFromTime t = yearSearch (Day t) (1970 + Day t div 365)"

definition InLeapYear :: "int \<Rightarrow> int" where
  "InLeapYear t = (if DaysInYear (YearFromTime t) = 366 then 1 else 0)"

definition DayWithinYear :: "int \<Rightarrow> int" where
  "DayWithinYear t = Day t - DayFromYear (YearFromTime t)"

text \<open>\<^verbatim>\<open>MonthFromTime\<close> counts the months from \<open>0\<close>; \<^verbatim>\<open>DateFromTime\<close> is the day of
  the month, from \<open>1\<close>.\<close>

definition MonthFromTime :: "int \<Rightarrow> int" where
  "MonthFromTime t =
     (let d = DayWithinYear t; l = InLeapYear t in
      if d < 31 then 0
      else if d < 59 + l then 1
      else if d < 90 + l then 2
      else if d < 120 + l then 3
      else if d < 151 + l then 4
      else if d < 181 + l then 5
      else if d < 212 + l then 6
      else if d < 243 + l then 7
      else if d < 273 + l then 8
      else if d < 304 + l then 9
      else if d < 334 + l then 10
      else 11)"

definition DateFromTime :: "int \<Rightarrow> int" where
  "DateFromTime t =
     (let d = DayWithinYear t; l = InLeapYear t; m = MonthFromTime t in
      if m = 0 then d + 1
      else if m = 1 then d - 30
      else if m = 2 then d - 58 - l
      else if m = 3 then d - 89 - l
      else if m = 4 then d - 119 - l
      else if m = 5 then d - 150 - l
      else if m = 6 then d - 180 - l
      else if m = 7 then d - 211 - l
      else if m = 8 then d - 242 - l
      else if m = 9 then d - 272 - l
      else if m = 10 then d - 303 - l
      else d - 333 - l)"

definition yearString :: "int \<Rightarrow> string" where
  "yearString y =
     (if 0 \<le> y \<and> y \<le> 9999 then padStart 4 (decimalString y)
      else (if 0 \<le> y then ''+'' else ''-'') @ padStart 6 (decimalString \<bar>y\<bar>))"

text \<open>The date part of \<^verbatim>\<open>toISOString\<close>: year, month and day of the month of the time
  value in UTC, as \<^verbatim>\<open>YYYY-MM-DD\<close>.\<close>

definition isoDay :: "int \<Rightarrow> string" where
  "isoDay t =
     yearString (YearFromTime t) @ ''-'' @
     padStart 2 (decimalString (MonthFromTime t + 1)) @ ''-'' @
     padStart 2 (decimalString (DateFromTime t))"

definition isoTime :: "int \<Rightarrow> string" where
  "isoTime t =
     (let r = t mod 86400000 in
      padStart 2 (decimalString (r div 3600000)) @ '':'' @
      padStart 2 (decimalString (r div 60000 mod 60)) @ '':'' @
      padStart 2 (decimalString (r div 1000 mod 60)) @ ''.'' @
      padStart 3 (decimalString (r mod 1000)) @ ''Z'')"

definition toISOString :: "int \<Rightarrow> string" where
  "toISOString t = isoDay t @ ''T'' @ isoTime t"

text \<open>\<^verbatim>\<open>s.split('T')[0]\<close>: the text before the first \<open>T\<close>, all of it when there is none.\<close>

definition splitT0 :: "string \<Rightarrow> string" where
  "splitT0 s = takeWhile (\<lambda>c. c \<noteq> CHR ''T'') s"


section \<open>The collaborators\<close>

text \<open>
  What the actions call and do not own: the database behind the \<^verbatim>\<open>sql\<close> tag, the
  framework's \<^verbatim>\<open>revalidatePath\<close> and \<^verbatim>\<open>redirect\<close>, the clock and
  \<^verbatim>\<open>signIn\<close>. A call is recorded in the order it is made. Whether a statement or
  a sign-in raises, and with what, is given from outside (\<open>env\<close>), as are the clock and
  the identifier the table assigns to a new row. A statement that does not raise changes
  the table as its text says. The system also has a time zone, \<open>localTZA\<close>, the offset of
  its local time from UTC in milliseconds; no action reads it.
\<close>

datatype thrown = AuthError string | OtherError string

datatype sqlStatement =
    INSERT_INTO_invoices jsval jsval jsval jsval
  | UPDATE_invoices jsval jsval jsval string
  | DELETE_FROM_invoices string

record invoiceRow =
  row_id :: string
  row_customer_id :: jsval
  row_amount :: jsval
  row_status :: jsval
  row_date :: jsval

datatype event =
    SqlCall sqlStatement
  | RevalidatePath string
  | SignIn string formData

record world =
  invoices :: "invoiceRow list"
  events :: "event list"

record env =
  now :: int
  localTZA :: int
  sql_raises :: "sqlStatement \<Rightarrow> thrown option"
  new_row_id :: string
  signIn_raises :: "string \<Rightarrow> formData \<Rightarrow> thrown option"

text \<open>How an action ends: it returns, it raises, or \<^verbatim>\<open>redirect\<close> takes control.\<close>

datatype 'a completion = Returns 'a | Throws thrown | Redirects string

fun execute :: "env \<Rightarrow> sqlStatement \<Rightarrow> invoiceRow list \<Rightarrow> invoiceRow list" where
  "execute e (INSERT_INTO_invoices c a s d) rows =
     rows @ [\<lparr>row_id = new_row_id e, row_customer_id = c, row_amount = a,
              row_status = s, row_date = d\<rparr>]"
| "execute e (UPDATE_invoices c a s i) rows =
     map (\<lambda>r. if row_id r = i
               then r\<lparr>row_customer_id := c, row_amount := a, row_status := s\<rparr>
               else r) rows"
| "execute e (DELETE_FROM_invoices i) rows = filter (\<lambda>r. row_id r \<noteq> i) rows"

text \<open>\<^verbatim>\<open>await sql`...`\<close>: the error it raises, if any, and the world after the call.\<close>

definition sql :: "env \<Rightarrow> sqlStatement \<Rightarrow> world \<Rightarrow> thrown option \<times> world" where
  "sql e st w =
     (case sql_raises e st of
        Some err \<Rightarrow> (Some err, w\<lparr>events := events w @ [SqlCall st]\<rparr>)
      | None \<Rightarrow>
          (None, w\<lparr>invoices := execute e st (invoices w),
                    events := events w @ [SqlCall st]\<rparr>))"

definition revalidatePath :: "string \<Rightarrow> world \<Rightarrow> world" where
  "revalidatePath path w = w\<lparr>events := events w @ [RevalidatePath path]\<rparr>"


section \<open>The actions\<close>

text \<open>\<^verbatim>\<open>FormSchema\<close>, and the two schemas derived from it.\<close>

definition FormSchema :: zodObject where
  "FormSchema =
     [(''id'', ZodString None),
      (''customerId'', ZodString (Some ''Please select a customer'')),
      (''amount'',
         gt (Finite 0 0) ''Please enter an amount greater than $0.'' (ZodNumber True [])),
      (''status'', ZodEnum [''paid'', ''pending''] (Some ''Please select an invoice status'')),
      (''date'', ZodString None)]"

definition CreateInvoice :: zodObject where
  "CreateInvoice = omit FormSchema [''id'', ''date'']"

definition UpdateInvoice :: zodObject where
  "UpdateInvoice = omit FormSchema [''id'', ''date'']"

text \<open>The \<^verbatim>\<open>State\<close> an action returns: both fields are optional.\<close>

record State =
  errors :: "(string \<times> string list) list option"
  message :: "string option"

definition authenticate :: "env \<Rightarrow> string option \<Rightarrow> formData \<Rightarrow> world \<Rightarrow> string option completion \<times> world" where
  "authenticate e prevState formData w =
     (let w1 = w\<lparr>events := events w @ [SignIn ''credentials'' formData]\<rparr> in
      case signIn_raises e ''credentials'' formData of
        None \<Rightarrow> (Returns None, w1)
      | Some (AuthError ty) \<Rightarrow>
          (if ty = ''CredentialsSignin'' then (Returns (Some ''Invalid credentials.''), w1)
           else (Returns (Some ''Something went wrong.''), w1))
      | Some err \<Rightarrow> (Throws err, w1))"

text \<open>The object literal both actions hand to \<^verbatim>\<open>safeParse\<close>.\<close>

definition formFields :: "formData \<Rightarrow> jsobject" where
  "formFields formData =
     [(''customerId'', formData_get formData ''customerId''),
      (''amount'', formData_get formData ''amount''),
      (''status'', formData_get formData ''status'')]"

definition createInvoice :: "env \<Rightarrow> State \<Rightarrow> formData \<Rightarrow> world \<Rightarrow> State completion \<times> world" where
  "createInvoice e prevState formData w =
     (case safeParse CreateInvoice (formFields formData) of
        ParseError issues \<Rightarrow>
          (Returns \<lparr>errors = Some (fieldErrors issues),
                    message = Some ''Missing Fields. Failed to create invoices.''\<rparr>, w)
      | ParseSuccess data \<Rightarrow>
          (let customerId = property data ''customerId'';
               amount = property data ''amount'';
               status = property data ''status'';
               amountInCents = js_times amount (JNumber (Finite 100 0));
               date = JString (splitT0 (toISOString (now e)))
           in case sql e (INSERT_INTO_invoices customerId amountInCents status date) w of
                (Some err, w1) \<Rightarrow>
                  (Returns \<lparr>errors = None,
                            message = Some ''Database Error: Failed to create invoice''\<rparr>, w1)
              | (None, w1) \<Rightarrow>
                  (Redirects ''/dashboard/invoices'',
                   revalidatePath ''/dashboard/invoices'' w1)))"

definition updateInvoice :: "env \<Rightarrow> string \<Rightarrow> State \<Rightarrow> formData \<Rightarrow> world \<Rightarrow> State completion \<times> world" where
  "updateInvoice e id' prevState formData w =
     (case safeParse UpdateInvoice (formFields formData) of
        ParseError issues \<Rightarrow>
          (Returns \<lparr>errors = Some (fieldErrors issues),
                    message = Some ''Missing Fields. Failed to update invoice''\<rparr>, w)
      | ParseSuccess data \<Rightarrow>
          (let customerId = property data ''customerId'';
               amount = property data ''amount'';
               status = property data ''status'';
               amountInCents = js_times amount (JNumber (Finite 100 0))
           in case sql e (UPDATE_invoices customerId amountInCents status id') w of
                (Some err, w1) \<Rightarrow>
                  (Returns \<lparr>errors = None,
                            message = Some ''Database Error: Failed to update database''\<rparr>, w1)
              | (None, w1) \<Rightarrow>
                  (Redirects ''/dashboard/invoices'',
                   revalidatePath ''/dashboard/invoices'' w1)))"

definition deleteInvoice :: "env \<Rightarrow> string \<Rightarrow> world \<Rightarrow> unit completion \<times> world" where
  "deleteInvoice e id' w =
     (case sql e (DELETE_FROM_invoices id') w of
        (Some err, w1) \<Rightarrow> (Throws err, w1)
      | (None, w1) \<Rightarrow> (Returns (), revalidatePath ''/dashboard/invoices'' w1))"


section \<open>Sample inputs\<close>

text \<open>
  A clock reading of 3 November 2024, 08:00:00.123 UTC, with a database that accepts
  every statement, and the same with a database that refuses every statement.
\<close>

definition sampleEnv :: env where
  "sampleEnv =
     \<lparr>now = 1730620800123, localTZA = 0, sql_raises = (\<lambda>st. None),
      new_row_id = ''inv-100'', signIn_raises = (\<lambda>provider fd. None)\<rparr>"

definition downEnv :: env where
  "downEnv = sampleEnv\<lparr>sql_raises := (\<lambda>st. Some (OtherError ''connection refused''))\<rparr>"

text \<open>
  Two more clock readings: the last millisecond of 29 February 2000, and 3 November
  2024, 23:30:00 UTC, on a system whose local time is two hours ahead of UTC.
\<close>

definition leapDayEnv :: env where
  "leapDayEnv = sampleEnv\<lparr>now := 951868799999\<rparr>"

definition lateEnv :: env where
  "lateEnv = sampleEnv\<lparr>now := 1730676600000, localTZA := 7200000\<rparr>"

definition noState :: State where
  "noState = \<lparr>errors = None, message = None\<rparr>"

definition sampleWorld :: world where
  "sampleWorld =
     \<lparr>invoices =
        [\<lparr>row_id = ''inv-42'', row_customer_id = JString ''c1'',
          row_amount = JNumber (Finite 1500 0), row_status = JString ''pending'',
          row_date = JString ''2024-10-01''\<rparr>,
         \<lparr>row_id = ''inv-43'', row_customer_id = JString ''c3'',
          row_amount = JNumber (Finite 700 0), row_status = JString ''paid'',
          row_date = JString ''2024-10-02''\<rparr>],
      events = []\<rparr>"

definition form :: "string \<Rightarrow> string \<Rightarrow> string \<Rightarrow> formData" where
  "form customerId amount status =
     [(''customerId'', EntryString customerId), (''amount'', EntryString amount),
      (''status'', EntryString status)]"


section \<open>The calendar, by counting\<close>

text \<open>
  What a calendar date is, said without the formulas of the clock: a year is a leap year
  by the Gregorian rule, a month has its usual number of days, and the number of a day
  counts the days of the whole years and of the whole months that lie between the first
  of January 1970 and that day. The dates the clock prints are measured against this.
\<close>

definition leapYear :: "int \<Rightarrow> bool" where
  "leapYear y = (4 dvd y \<and> (\<not> 100 dvd y \<or> 400 dvd y))"

definition daysInYear :: "int \<Rightarrow> int" where
  "daysInYear y = (if leapYear y then 366 else 365)"

definition daysInMonth :: "int \<Rightarrow> int \<Rightarrow> int" where
  "daysInMonth y m =
     (if m = 2 then (if leapYear y then 29 else 28)
      else if m = 4 \<or> m = 6 \<or> m = 9 \<or> m = 11 then 30
      else 31)"

definition validDate :: "int \<Rightarrow> int \<Rightarrow> int \<Rightarrow> bool" where
  "validDate y m d = (1 \<le> m \<and> m \<le> 12 \<and> 1 \<le> d \<and> d \<le> daysInMonth y m)"

definition daysBeforeYear :: "int \<Rightarrow> int" where
  "daysBeforeYear y =
     (if 1970 \<le> y then sum_list (map daysInYear [1970..y - 1])
      else - sum_list (map daysInYear [y..1969]))"

definition daysBeforeMonth :: "int \<Rightarrow> int \<Rightarrow> int" where
  "daysBeforeMonth y m = sum_list (map (daysInMonth y) [1..m - 1])"

definition daysSinceEpoch :: "int \<Rightarrow> int \<Rightarrow> int \<Rightarrow> int" where
  "daysSinceEpoch y m d = daysBeforeYear y + daysBeforeMonth y m + (d - 1)"

text \<open>
  The calendar day of the system in its own time zone: local time is the time value
  moved by the zone's offset from UTC.
\<close>

definition localDay :: "env \<Rightarrow> string" where
  "localDay e = isoDay (now e + localTZA e)"


section \<open>The verdict on each field\<close>

text \<open>
  What the three schemas of \<open>CreateInvoice\<close> say about the three values read from the
  form, written out field by field; \<open>safeParse_form\<close> below proves that
  \<open>safeParse\<close> computes exactly these. \<open>messagesAt\<close> collects the messages of the issues
  whose path starts with a key, which is what \<open>fieldErrors\<close> stores under that key.
\<close>

definition customerIdIssues :: "jsval \<Rightarrow> zodIssue list" where
  "customerIdIssues c =
     (case c of
        JString s \<Rightarrow> []
      | _ \<Rightarrow> [ZodIssue invalid_type [''customerId''] ''Please select a customer''])"

definition amountIssues :: "jsval \<Rightarrow> zodIssue list" where
  "amountIssues a =
     (if Number a = NaN then [ZodIssue invalid_type [''amount''] ''Expected number, received nan'']
      else if js_le (Number a) (Finite 0 0)
        then [ZodIssue too_small [''amount''] ''Please enter an amount greater than $0.'']
      else [])"

definition statusIssues :: "jsval \<Rightarrow> zodIssue list" where
  "statusIssues s =
     (case s of
        JString x \<Rightarrow>
          if x = ''paid'' \<or> x = ''pending'' then []
          else [ZodIssue invalid_enum_value [''status'']
                  (defaultInvalidEnumValue [''paid'', ''pending''] x)]
      | _ \<Rightarrow> [ZodIssue invalid_type [''status''] ''Please select an invoice status''])"

definition messagesAt :: "string \<Rightarrow> zodIssue list \<Rightarrow> string list" where
  "messagesAt k issues =
     map issue_message
       (filter (\<lambda>i. case issue_path i of [] \<Rightarrow> False | k' # ks \<Rightarrow> k' = k) issues)"


text \<open>
  What a caller finds under \<^verbatim>\<open>errors[k]\<close> in the state an action returned: nothing
  when the action did not return, or returned no \<^verbatim>\<open>errors\<close>, or no such key.
\<close>

definition errorsAt :: "State completion \<times> world \<Rightarrow> string \<Rightarrow> string list option" where
  "errorsAt r k =
     (case fst r of
        Returns st \<Rightarrow> (case errors st of None \<Rightarrow> None | Some errs \<Rightarrow> map_of errs k)
      | Throws err \<Rightarrow> None
      | Redirects path \<Rightarrow> None)"


section \<open>Properties of the schema and of the clock\<close>

lemma CreateInvoice_shape:
  "CreateInvoice =
     [(''customerId'', ZodString (Some ''Please select a customer'')),
      (''amount'', ZodNumber True [MinCheck (Finite 0 0) False ''Please enter an amount greater than $0.'']),
      (''status'', ZodEnum [''paid'', ''pending''] (Some ''Please select an invoice status''))]"
  by (simp add: CreateInvoice_def FormSchema_def omit_def)

lemma UpdateInvoice_shape: "UpdateInvoice = CreateInvoice"
  by (simp add: CreateInvoice_def UpdateInvoice_def)

lemma formData_get_cases:
  "formData_get fd k = Null \<or> (\<exists>s. formData_get fd k = JString s) \<or> (\<exists>f. formData_get fd k = JFile f)"
  by (simp add: formData_get_def split: option.split formDataEntryValue.split)

lemma formData_get_defined [simp]: "formData_get fd k \<noteq> Undefined"
  using formData_get_cases [of fd k] by auto

lemma zodParse_string:
  "v \<noteq> Undefined \<Longrightarrow>
   zodParse (ZodString (Some m)) p v =
     (case v of JString s \<Rightarrow> Inr v | _ \<Rightarrow> Inl [ZodIssue invalid_type p m])"
  by (cases v) (simp_all add: customMap_def)

lemma zodParse_amount:
  "zodParse (ZodNumber True [MinCheck (Finite 0 0) False m]) p v =
     (if Number v = NaN then Inl [ZodIssue invalid_type p ''Expected number, received nan'']
      else if js_le (Number v) (Finite 0 0) then Inl [ZodIssue too_small p m]
      else Inr (JNumber (Number v)))"
  by (simp add: defaultInvalidType_def Let_def)

lemma zodParse_enum:
  "v \<noteq> Undefined \<Longrightarrow>
   zodParse (ZodEnum vs (Some m)) p v =
     (case v of
        JString s \<Rightarrow> if s \<in> set vs then Inr v
                     else Inl [ZodIssue invalid_enum_value p (defaultInvalidEnumValue vs s)]
      | _ \<Rightarrow> Inl [ZodIssue invalid_type p m])"
  by (cases v) (simp_all add: customMap_def)

lemma safeParse_form:
  "safeParse CreateInvoice (formFields fd) =
     (let c = formData_get fd ''customerId''; a = formData_get fd ''amount''; s = formData_get fd ''status'' in
      if customerIdIssues c @ amountIssues a @ statusIssues s = []
      then ParseSuccess [(''customerId'', c), (''amount'', JNumber (Number a)), (''status'', s)]
      else ParseError (customerIdIssues c @ amountIssues a @ statusIssues s))"
  using formData_get_cases [of fd "''customerId''"] formData_get_cases [of fd "''status''"]
  by (auto simp add: safeParse_def CreateInvoice_shape formFields_def property_def zodParse_string zodParse_amount zodParse_enum
     customerIdIssues_def amountIssues_def statusIssues_def Let_def simp del: zodParse.simps split: if_splits)

lemma createInvoice_eq:
  "createInvoice e p fd w =
     (let c = formData_get fd ''customerId''; a = formData_get fd ''amount''; s = formData_get fd ''status'';
          issues = customerIdIssues c @ amountIssues a @ statusIssues s;
          st = INSERT_INTO_invoices c (JNumber (js_mul (Number a) (Finite 100 0))) s (JString (splitT0 (toISOString (now e))))
      in if issues \<noteq> [] then
           (Returns \<lparr>errors = Some (fieldErrors issues), message = Some ''Missing Fields. Failed to create invoices.''\<rparr>, w)
         else if sql_raises e st \<noteq> None then
           (Returns \<lparr>errors = None, message = Some ''Database Error: Failed to create invoice''\<rparr>,
            w\<lparr>events := events w @ [SqlCall st]\<rparr>)
         else
           (Redirects ''/dashboard/invoices'',
            w\<lparr>invoices := execute e st (invoices w),
              events := events w @ [SqlCall st, RevalidatePath ''/dashboard/invoices'']\<rparr>))"
  by (auto simp add: createInvoice_def safeParse_form Let_def property_def js_times_def sql_def revalidatePath_def
       split: option.splits)

lemma updateInvoice_eq:
  "updateInvoice e i p fd w =
     (let c = formData_get fd ''customerId''; a = formData_get fd ''amount''; s = formData_get fd ''status'';
          issues = customerIdIssues c @ amountIssues a @ statusIssues s;
          st = UPDATE_invoices c (JNumber (js_mul (Number a) (Finite 100 0))) s i
      in if issues \<noteq> [] then
           (Returns \<lparr>errors = Some (fieldErrors issues), message = Some ''Missing Fields. Failed to update invoice''\<rparr>, w)
         else if sql_raises e st \<noteq> None then
           (Returns \<lparr>errors = None, message = Some ''Database Error: Failed to update database''\<rparr>,
            w\<lparr>events := events w @ [SqlCall st]\<rparr>)
         else
           (Redirects ''/dashboard/invoices'',
            w\<lparr>invoices := execute e st (invoices w),
              events := events w @ [SqlCall st, RevalidatePath ''/dashboard/invoices'']\<rparr>))"
  by (auto simp add: updateInvoice_def UpdateInvoice_shape safeParse_form Let_def property_def js_times_def sql_def revalidatePath_def
       split: option.splits)

lemma decimalString_digits: "set (decimalString n) \<subseteq> set ''0123456789''"
proof (induction n rule: decimalString.induct)
  case (1 n)
  have nth_in: "''0123456789'' ! k \<in> set ''0123456789''" if "k < 10" for k
    using that by (intro nth_mem) simp
  show ?case
  proof (cases "n < 10")
    case True
    then have "nat n < 10" by simp
    then show ?thesis
      using nth_in [of "nat n"] True by (subst decimalString.simps) simp
  next
    case False
    have "nat (n mod 10) < 10" by simp
    then show ?thesis
      using nth_in [of "nat (n mod 10)"] False "1.IH"
      by (subst decimalString.simps) simp
  qed
qed

lemma padStart_digits: "set (padStart k (decimalString n)) \<subseteq> set ''0123456789''"
  using decimalString_digits [of n] by (auto simp add: padStart_def)

lemma no_T_pad: "CHR ''T'' \<notin> set (padStart k (decimalString n))"
  using padStart_digits [of k n] by auto

lemma no_T_year: "CHR ''T'' \<notin> set (yearString y)"
  using no_T_pad by (simp add: yearString_def)

lemma no_T_isoDay: "CHR ''T'' \<notin> set (isoDay t)"
  using no_T_pad no_T_year by (simp add: isoDay_def)

lemma splitT0_toISOString: "splitT0 (toISOString t) = isoDay t"
proof -
  have "takeWhile (\<lambda>c. c \<noteq> CHR ''T'') (isoDay t @ ''T'' @ isoTime t) = isoDay t"
    using no_T_isoDay [of t] by (subst takeWhile_append2) auto
  then show ?thesis by (simp add: splitT0_def toISOString_def)
qed

lemma map_of_pushMessage:
  "map_of (pushMessage acc k' m) k =
     (if k = k' then Some ((case map_of acc k of None \<Rightarrow> [] | Some ms \<Rightarrow> ms) @ [m])
      else map_of acc k)"
  by (induction acc k' m rule: pushMessage.induct) auto

lemma map_of_foldl_pushMessage:
  "map_of (foldl (\<lambda>acc i. case issue_path i of [] \<Rightarrow> acc | k # ks \<Rightarrow> pushMessage acc k (issue_message i)) acc issues) k =
     (if messagesAt k issues = [] then map_of acc k
      else Some ((case map_of acc k of None \<Rightarrow> [] | Some ms \<Rightarrow> ms) @ messagesAt k issues))"
proof (induction issues arbitrary: acc)
  case Nil
  then show ?case by (simp add: messagesAt_def)
next
  case (Cons i issues)
  show ?case
  proof (cases "issue_path i")
    case Nil
    then show ?thesis using Cons.IH [of acc] by (simp add: messagesAt_def)
  next
    case (Cons k' ks)
    then show ?thesis
      using Cons.IH [of "pushMessage acc k' (issue_message i)"]
      by (simp add: messagesAt_def map_of_pushMessage)
  qed
qed

lemma map_of_fieldErrors:
  "map_of (fieldErrors issues) k = (if messagesAt k issues = [] then None else Some (messagesAt k issues))"
  by (simp add: fieldErrors_def map_of_foldl_pushMessage)

lemma messagesAt_append: "messagesAt k (xs @ ys) = messagesAt k xs @ messagesAt k ys"
  by (simp add: messagesAt_def)

lemma messagesAt_customerId:
  "messagesAt k (customerIdIssues c) =
     (if k = ''customerId'' \<and> (\<forall>s. c \<noteq> JString s) then [''Please select a customer''] else [])"
  by (cases c) (simp_all add: messagesAt_def customerIdIssues_def)

lemma messagesAt_amount:
  "messagesAt k (amountIssues a) =
     (if k \<noteq> ''amount'' then []
      else if Number a = NaN then [''Expected number, received nan'']
      else if js_le (Number a) (Finite 0 0) then [''Please enter an amount greater than $0.'']
      else [])"
  by (simp add: messagesAt_def amountIssues_def)

lemma messagesAt_status:
  "messagesAt k (statusIssues s) =
     (if k \<noteq> ''status'' then []
      else case s of
        JString x \<Rightarrow> if x = ''paid'' \<or> x = ''pending'' then []
                     else [defaultInvalidEnumValue [''paid'', ''pending''] x]
      | _ \<Rightarrow> [''Please select an invoice status''])"
  by (cases s) (simp_all add: messagesAt_def statusIssues_def)

lemma fieldErrors_customerId:
  "map_of (fieldErrors (customerIdIssues c @ amountIssues a @ statusIssues s)) ''customerId'' =
     (if \<forall>x. c \<noteq> JString x then Some [''Please select a customer''] else None)"
  by (simp add: map_of_fieldErrors messagesAt_append messagesAt_customerId messagesAt_amount messagesAt_status)

lemma fieldErrors_amount:
  "map_of (fieldErrors (customerIdIssues c @ amountIssues a @ statusIssues s)) ''amount'' =
     (if Number a = NaN then Some [''Expected number, received nan'']
      else if js_le (Number a) (Finite 0 0) then Some [''Please enter an amount greater than $0.'']
      else None)"
  by (simp add: map_of_fieldErrors messagesAt_append messagesAt_customerId messagesAt_amount messagesAt_status)

lemma fieldErrors_status:
  "map_of (fieldErrors (customerIdIssues c @ amountIssues a @ statusIssues s)) ''status'' =
     (case s of
        JString x \<Rightarrow> if x = ''paid'' \<or> x = ''pending'' then None
                     else Some [defaultInvalidEnumValue [''paid'', ''pending''] x]
      | _ \<Rightarrow> Some [''Please select an invoice status''])"
  by (cases s) (simp_all add: map_of_fieldErrors messagesAt_append messagesAt_customerId messagesAt_amount messagesAt_status)

lemma issues_empty_iff:
  "customerIdIssues c @ amountIssues a @ statusIssues s = [] \<longleftrightarrow>
     (\<exists>x. c = JString x) \<and> Number a \<noteq> NaN \<and> \<not> js_le (Number a) (Finite 0 0)
     \<and> (s = JString ''paid'' \<or> s = JString ''pending'')"
  by (cases c; cases s) (auto simp add: customerIdIssues_def amountIssues_def statusIssues_def)

lemma accepted_iff:
  "(\<exists>data. safeParse CreateInvoice (formFields fd) = ParseSuccess data) \<longleftrightarrow>
     customerIdIssues (formData_get fd ''customerId'') @ amountIssues (formData_get fd ''amount'')
       @ statusIssues (formData_get fd ''status'') = []"
  by (simp add: safeParse_form Let_def)

lemma createInvoice_accepted:
  assumes "safeParse CreateInvoice (formFields fd) = ParseSuccess data"
  shows "createInvoice e p fd w =
     (let st = INSERT_INTO_invoices (formData_get fd ''customerId'')
                 (JNumber (js_mul (Number (formData_get fd ''amount'')) (Finite 100 0)))
                 (formData_get fd ''status'') (JString (isoDay (now e)))
      in case sql_raises e st of
           Some err \<Rightarrow>
             (Returns \<lparr>errors = None, message = Some ''Database Error: Failed to create invoice''\<rparr>,
              w\<lparr>events := events w @ [SqlCall st]\<rparr>)
         | None \<Rightarrow>
             (Redirects ''/dashboard/invoices'',
              w\<lparr>invoices := execute e st (invoices w),
                events := events w @ [SqlCall st, RevalidatePath ''/dashboard/invoices'']\<rparr>))"
proof -
  have ok: "customerIdIssues (formData_get fd ''customerId'') @ amountIssues (formData_get fd ''amount'')
       @ statusIssues (formData_get fd ''status'') = []"
    using assms accepted_iff [of fd] by blast
  show ?thesis
    unfolding createInvoice_eq Let_def ok splitT0_toISOString
    by (simp split: option.split)
qed

lemma updateInvoice_accepted:
  assumes "safeParse UpdateInvoice (formFields fd) = ParseSuccess data"
  shows "updateInvoice e i p fd w =
     (let st = UPDATE_invoices (formData_get fd ''customerId'')
                 (JNumber (js_mul (Number (formData_get fd ''amount'')) (Finite 100 0)))
                 (formData_get fd ''status'') i
      in case sql_raises e st of
           Some err \<Rightarrow>
             (Returns \<lparr>errors = None, message = Some ''Database Error: Failed to update database''\<rparr>,
              w\<lparr>events := events w @ [SqlCall st]\<rparr>)
         | None \<Rightarrow>
             (Redirects ''/dashboard/invoices'',
              w\<lparr>invoices := execute e st (invoices w),
                events := events w @ [SqlCall st, RevalidatePath ''/dashboard/invoices'']\<rparr>))"
proof -
  have ok: "customerIdIssues (formData_get fd ''customerId'') @ amountIssues (formData_get fd ''amount'')
       @ statusIssues (formData_get fd ''status'') = []"
    using assms accepted_iff [of fd] by (simp add: UpdateInvoice_shape)
  show ?thesis
    unfolding updateInvoice_eq Let_def ok
    by (simp split: option.split)
qed

lemma accepted_positive:
  assumes "safeParse CreateInvoice (formFields fd) = ParseSuccess data"
  shows "Number (formData_get fd ''amount'') \<noteq> NaN
       \<and> \<not> js_le (Number (formData_get fd ''amount'')) (Finite 0 0)"
  using assms accepted_iff [of fd] issues_empty_iff by blast

lemma form_get:
  "formData_get (form c a s) ''customerId'' = JString c"
  "formData_get (form c a s) ''amount'' = JString a"
  "formData_get (form c a s) ''status'' = JString s"
  by (simp_all add: form_def formData_get_def)

lemma sampleEnv_fields:
  "now sampleEnv = 1730620800123"
  "sql_raises sampleEnv = (\<lambda>st. None)"
  "new_row_id sampleEnv = ''inv-100''"
  by (simp_all add: sampleEnv_def)

lemma downEnv_fields:
  "now downEnv = 1730620800123"
  "sql_raises downEnv = (\<lambda>st. Some (OtherError ''connection refused''))"
  by (simp_all add: downEnv_def sampleEnv_def)

lemma sample_day: "isoDay 1730620800123 = ''2024-11-03''"
  by code_simp

lemma rejected_results:
  assumes "customerIdIssues (formData_get fd ''customerId'') @ amountIssues (formData_get fd ''amount'')
       @ statusIssues (formData_get fd ''status'') \<noteq> []"
  shows "createInvoice e p fd w =
           (Returns \<lparr>errors = Some (fieldErrors (customerIdIssues (formData_get fd ''customerId'')
                        @ amountIssues (formData_get fd ''amount'') @ statusIssues (formData_get fd ''status''))),
                     message = Some ''Missing Fields. Failed to create invoices.''\<rparr>, w)"
    and "updateInvoice e i p fd w =
           (Returns \<lparr>errors = Some (fieldErrors (customerIdIssues (formData_get fd ''customerId'')
                        @ amountIssues (formData_get fd ''amount'') @ statusIssues (formData_get fd ''status''))),
                     message = Some ''Missing Fields. Failed to update invoice''\<rparr>, w)"
  using assms by (simp_all add: createInvoice_eq updateInvoice_eq Let_def)

lemma update_keeps_ids: "map row_id (execute e (UPDATE_invoices c a s i) rows) = map row_id rows"
  by (induction rows) simp_all

lemma update_keeps_dates: "map row_date (execute e (UPDATE_invoices c a s i) rows) = map row_date rows"
  by (induction rows) simp_all

lemma update_keeps_others:
  "filter (\<lambda>r. row_id r \<noteq> i) (execute e (UPDATE_invoices c a s i) rows) = filter (\<lambda>r. row_id r \<noteq> i) rows"
  by (induction rows) simp_all

lemma errorsAt_create:
  "errorsAt (createInvoice e p fd w) k =
     map_of (fieldErrors (customerIdIssues (formData_get fd ''customerId'')
        @ amountIssues (formData_get fd ''amount'') @ statusIssues (formData_get fd ''status''))) k"
proof (cases "customerIdIssues (formData_get fd ''customerId'')
        @ amountIssues (formData_get fd ''amount'') @ statusIssues (formData_get fd ''status'') = []")
  case True
  have "fieldErrors [] = []" by (simp add: fieldErrors_def)
  then show ?thesis
    unfolding errorsAt_def createInvoice_eq Let_def True by simp
next
  case False
  then show ?thesis
    by (simp add: errorsAt_def rejected_results(1) [OF False])
qed

lemma errorsAt_update:
  "errorsAt (updateInvoice e i p fd w) k =
     map_of (fieldErrors (customerIdIssues (formData_get fd ''customerId'')
        @ amountIssues (formData_get fd ''amount'') @ statusIssues (formData_get fd ''status''))) k"
proof (cases "customerIdIssues (formData_get fd ''customerId'')
        @ amountIssues (formData_get fd ''amount'') @ statusIssues (formData_get fd ''status'') = []")
  case True
  have "fieldErrors [] = []" by (simp add: fieldErrors_def)
  then show ?thesis
    unfolding errorsAt_def updateInvoice_eq Let_def True by simp
next
  case False
  then show ?thesis
    by (simp add: errorsAt_def rejected_results(2) [OF False])
qed


section \<open>Properties of the number model\<close>

text \<open>
  A product whose exact value is a whole number below \<open>2 ^ 53\<close> is computed exactly:
  rounding to 53 significant bits changes nothing there.
\<close>

lemma bitlen_bounds:
  "0 < n \<Longrightarrow> 1 \<le> bitlen n \<and> 2 ^ nat (bitlen n - 1) \<le> n \<and> n < 2 ^ nat (bitlen n)"
proof (induction n rule: bitlen.induct)
  case (1 n)
  show ?case
  proof (cases "n = 1")
    case True
    then show ?thesis
      by (simp add: bitlen.simps [of 1] bitlen.simps [of 0])
  next
    case False
    with "1.prems" have pos: "0 < n div 2" by simp
    have ih: "1 \<le> bitlen (n div 2) \<and> 2 ^ nat (bitlen (n div 2) - 1) \<le> n div 2
        \<and> n div 2 < 2 ^ nat (bitlen (n div 2))"
      using "1.IH" "1.prems" pos by simp
    have b: "bitlen n = 1 + bitlen (n div 2)"
      using "1.prems" by (subst bitlen.simps) simp
    have n1: "nat (bitlen n - 1) = Suc (nat (bitlen (n div 2) - 1))"
      using ih b by (simp add: Suc_nat_eq_nat_zadd1)
    have n2: "nat (bitlen n) = Suc (nat (bitlen (n div 2)))"
      using ih b by (simp add: Suc_nat_eq_nat_zadd1)
    have lo: "2 * (n div 2) \<le> n" by simp
    have hi: "n < 2 * (n div 2 + 1)" by simp
    show ?thesis
      using ih lo hi b unfolding n1 n2 by simp
  qed
qed

lemma bitlen_shift: "0 < c \<Longrightarrow> bitlen (c * 2 ^ k) = bitlen c + int k"
proof (induction k)
  case 0
  then show ?case by simp
next
  case (Suc k)
  have "0 < c * 2 ^ Suc k" using Suc.prems by simp
  then have "bitlen (c * 2 ^ Suc k) = 1 + bitlen (c * 2 ^ Suc k div 2)"
    by (subst bitlen.simps) simp
  also have "c * 2 ^ Suc k div 2 = c * 2 ^ k" by simp
  finally show ?case using Suc by simp
qed

lemma bitlen_power: "bitlen (2 ^ k) = int k + 1"
  using bitlen_shift [of 1 k] by (simp add: bitlen.simps [of 1] bitlen.simps [of 0])

lemma floor_log2_exact:
  assumes "0 < c"
  shows "floor_log2 (c * 2 ^ k) (2 ^ k) = bitlen c - 1"
proof -
  have b: "1 \<le> bitlen c" "2 ^ nat (bitlen c - 1) \<le> c"
    using bitlen_bounds [OF assms] by simp_all
  have "(2::int) ^ k * 2 ^ nat (bitlen c - 1) \<le> c * 2 ^ k"
    using b(2) by (simp add: mult.commute)
  then show ?thesis
    using b(1) by (simp add: floor_log2_def bitlen_shift [OF assms] bitlen_power Let_def)
qed

lemma round_half_even_exact: "0 < q \<Longrightarrow> round_half_even (n * q) q = n"
  by (simp add: round_half_even_def)

lemma dyadic_shift: "0 \<le> k \<Longrightarrow> dyadic (n * 2 ^ nat k) k = Finite n 0"
proof (induction "nat k" arbitrary: k)
  case 0
  then show ?case by (subst dyadic.simps) simp
next
  case (Suc j)
  then have k: "0 < k" "nat k = Suc j" "j = nat (k - 1)" by simp_all
  have "dyadic (n * 2 ^ nat k) k = dyadic ((n * 2 ^ nat k) div 2) (k - 1)"
    using k by (subst dyadic.simps) simp
  also have "(n * 2 ^ nat k) div 2 = n * 2 ^ nat (k - 1)"
    using k by simp
  also have "dyadic (n * 2 ^ nat (k - 1)) (k - 1) = Finite n 0"
    using Suc.hyps(1) [of "k - 1"] k by simp
  finally show ?case .
qed

lemma bitlen_le_53: "0 < n \<Longrightarrow> n < 2 ^ 53 \<Longrightarrow> bitlen n \<le> 53"
proof (rule ccontr)
  assume n: "0 < n" "n < 2 ^ 53" and "\<not> bitlen n \<le> 53"
  then have "53 \<le> nat (bitlen n - 1)" by simp
  then have "(2::int) ^ 53 \<le> 2 ^ nat (bitlen n - 1)"
    by (intro power_increasing) simp_all
  with bitlen_bounds [OF n(1)] n(2) show False by simp
qed

lemma to_double_exact:
  assumes "0 < c" "c < 2 ^ 53"
  shows "to_double (c * 2 ^ k) (2 ^ k) = Finite c 0"
proof -
  have b: "1 \<le> bitlen c" "bitlen c \<le> 53"
    using bitlen_bounds [OF assms(1)] bitlen_le_53 [OF assms] by simp_all
  define e where "e = bitlen c - 53"
  have e: "e \<le> 0" "- 52 \<le> e" using b by (simp_all add: e_def)
  have m: "max (floor_log2 (c * 2 ^ k) (2 ^ k) - 52) (- 1074) = e"
    using e by (simp add: floor_log2_exact [OF assms(1)] e_def)
  have r0: "round_half_even (c * 2 ^ k) (2 ^ k) = c"
    by (rule round_half_even_exact) simp
  have r1: "round_half_even (c * 2 ^ k * 2 ^ nat (- e)) (2 ^ k) = c * 2 ^ nat (- e)"
  proof -
    have eq: "c * 2 ^ k * 2 ^ nat (- e) = c * 2 ^ nat (- e) * 2 ^ k"
      by (simp add: mult.assoc mult.commute)
    show ?thesis
      unfolding eq by (rule round_half_even_exact) simp
  qed
  have rp: "round_pos (c * 2 ^ k) (2 ^ k) = (if e = 0 then c else c * 2 ^ nat (- e), e)"
    using e r0 r1 by (simp add: round_pos_def m Let_def)
  have p: "0 < c * 2 ^ k" "\<bar>c * 2 ^ k\<bar> = c * 2 ^ k" "sgn (c * 2 ^ k) = 1"
    using assms(1) by (simp_all add: sgn_mult abs_mult)
  show ?thesis
  proof (cases "e = 0")
    case True
    then show ?thesis
      using p assms(1) by (simp add: to_double_def rp)
  next
    case False
    then have neg: "e < 0" using e by simp
    have "to_double (c * 2 ^ k) (2 ^ k) = dyadic (c * 2 ^ nat (- e)) (- e)"
      using p neg assms(1) by (simp add: to_double_def rp)
    also have "\<dots> = Finite c 0"
      using dyadic_shift [of "- e" c] neg by simp
    finally show ?thesis .
  qed
qed

lemma whole_cents_exact:
  assumes "0 < c" "c < 2 ^ 53" "m * 100 = c * 2 ^ k"
  shows "js_mul (Finite m k) (Finite 100 0) = Finite c 0"
  using to_double_exact [OF assms(1,2), of k] assms(3) by simp


section \<open>Properties of the calendar\<close>

text \<open>
  The year, month and day the clock computes from a time value are the calendar date
  that lies as many whole days after the first of January 1970 as the time value does,
  and no other valid date lies there.
\<close>

lemma yearSearch_spec:
  "DayFromYear (yearSearch day y) \<le> day \<and> day < DayFromYear (yearSearch day y + 1)"
proof (induction day y rule: yearSearch.induct)
  case (1 day y)
  show ?case
  proof (cases "day < DayFromYear y")
    case True
    then show ?thesis
      using "1.IH"(1) by (subst (1 2) yearSearch.simps) simp
  next
    case False
    show ?thesis
    proof (cases "DayFromYear (y + 1) \<le> day")
      case True
      then show ?thesis
        using False "1.IH"(2) by (subst (1 2) yearSearch.simps) simp
    next
      case no: False
      then show ?thesis
        using False by (subst (1 2) yearSearch.simps) simp
    qed
  qed
qed

lemma DaysInYear_daysInYear: "DaysInYear y = daysInYear y"
  by (simp add: DaysInYear_dvd daysInYear_def leapYear_def)

lemma daysBeforeYear_next: "daysBeforeYear (y + 1) = daysBeforeYear y + daysInYear y"
proof (cases "1970 \<le> y")
  case True
  then have "[1970..y] = [1970..y - 1] @ [y]"
    by (rule upto_rec2)
  then show ?thesis
    using True by (simp add: daysBeforeYear_def)
next
  case False
  then have "[y..1969] = y # [y + 1..1969]"
    by (intro upto_rec1) simp
  then show ?thesis
    using False by (cases "y = 1969") (simp_all add: daysBeforeYear_def)
qed

lemma DayFromYear_counts: "DayFromYear y = daysBeforeYear y"
proof (induction y rule: int_induct [where k = 1970])
  case base
  show ?case by (simp add: DayFromYear_def daysBeforeYear_def)
next
  case (step1 i)
  then show ?case
    using DayFromYear_next [of i] daysBeforeYear_next [of i]
    by (simp add: DaysInYear_daysInYear)
next
  case (step2 i)
  then show ?case
    using DayFromYear_next [of "i - 1"] daysBeforeYear_next [of "i - 1"]
    by (simp add: DaysInYear_daysInYear)
qed

lemma YearFromTime_spec:
  "DayFromYear (YearFromTime t) \<le> Day t \<and> Day t < DayFromYear (YearFromTime t + 1)"
  unfolding YearFromTime_def by (rule yearSearch_spec)

lemma DayWithinYear_range:
  "0 \<le> DayWithinYear t \<and> DayWithinYear t < 365 + InLeapYear t"
  using YearFromTime_spec [of t] DaysInYear_range [of "YearFromTime t"]
  by (auto simp add: DayWithinYear_def InLeapYear_def DayFromYear_next)

lemma InLeapYear_leapYear: "InLeapYear t = (if leapYear (YearFromTime t) then 1 else 0)"
  by (simp add: InLeapYear_def DaysInYear_daysInYear daysInYear_def)

lemma daysBeforeMonth_values:
  "daysBeforeMonth y 1 = 0"
  "daysBeforeMonth y 2 = 31"
  "daysBeforeMonth y 3 = 59 + (if leapYear y then 1 else 0)"
  "daysBeforeMonth y 4 = 90 + (if leapYear y then 1 else 0)"
  "daysBeforeMonth y 5 = 120 + (if leapYear y then 1 else 0)"
  "daysBeforeMonth y 6 = 151 + (if leapYear y then 1 else 0)"
  "daysBeforeMonth y 7 = 181 + (if leapYear y then 1 else 0)"
  "daysBeforeMonth y 8 = 212 + (if leapYear y then 1 else 0)"
  "daysBeforeMonth y 9 = 243 + (if leapYear y then 1 else 0)"
  "daysBeforeMonth y 10 = 273 + (if leapYear y then 1 else 0)"
  "daysBeforeMonth y 11 = 304 + (if leapYear y then 1 else 0)"
  "daysBeforeMonth y 12 = 334 + (if leapYear y then 1 else 0)"
  by (simp_all add: daysBeforeMonth_def daysInMonth_def upto_rec1)

lemma month_date_spec:
  "1 \<le> MonthFromTime t + 1 \<and> MonthFromTime t + 1 \<le> 12
   \<and> 1 \<le> DateFromTime t
   \<and> DateFromTime t \<le> daysInMonth (YearFromTime t) (MonthFromTime t + 1)
   \<and> daysBeforeMonth (YearFromTime t) (MonthFromTime t + 1) + (DateFromTime t - 1) = DayWithinYear t"
proof -
  define d where "d = DayWithinYear t"
  define y where "y = YearFromTime t"
  have r: "0 \<le> d" "d < 365 + (if leapYear y then 1 else 0)"
    using DayWithinYear_range [of t] by (simp_all add: d_def y_def InLeapYear_leapYear)
  show ?thesis
    unfolding MonthFromTime_def DateFromTime_def Let_def InLeapYear_leapYear
      d_def [symmetric] y_def [symmetric]
    using r
    by (cases "leapYear y") (simp_all add: daysBeforeMonth_values daysInMonth_def)
qed

lemma utc_date:
  "1 \<le> MonthFromTime t + 1 \<and> MonthFromTime t + 1 \<le> 12
   \<and> 1 \<le> DateFromTime t
   \<and> DateFromTime t \<le> daysInMonth (YearFromTime t) (MonthFromTime t + 1)
   \<and> daysSinceEpoch (YearFromTime t) (MonthFromTime t + 1) (DateFromTime t) = t div 86400000"
proof -
  have "daysSinceEpoch (YearFromTime t) (MonthFromTime t + 1) (DateFromTime t)
      = DayFromYear (YearFromTime t) + DayWithinYear t"
    using month_date_spec [of t] by (simp add: daysSinceEpoch_def DayFromYear_counts)
  also have "\<dots> = t div 86400000"
    by (simp add: DayWithinYear_def Day_def msPerDay_def)
  finally show ?thesis
    using month_date_spec [of t] by simp
qed

lemma daysInMonth_pos: "0 < daysInMonth y m"
  by (simp add: daysInMonth_def)

lemma daysInYear_pos: "0 < daysInYear y"
  by (simp add: daysInYear_def)

lemma daysBeforeMonth_next:
  "1 \<le> m \<Longrightarrow> daysBeforeMonth y (m + 1) = daysBeforeMonth y m + daysInMonth y m"
  using upto_rec2 [of 1 m] by (simp add: daysBeforeMonth_def)

lemma daysBeforeMonth_mono:
  assumes "m \<le> m'" "1 \<le> m"
  shows "daysBeforeMonth y m \<le> daysBeforeMonth y m'"
  using assms
proof (induction m' rule: int_ge_induct)
  case base
  then show ?case by simp
next
  case (step i)
  then show ?case
    using daysBeforeMonth_next [of i y] daysInMonth_pos [of y i] by simp
qed

lemma daysBeforeYear_mono:
  assumes "y \<le> y'"
  shows "daysBeforeYear y \<le> daysBeforeYear y'"
  using assms
proof (induction y' rule: int_ge_induct)
  case base
  then show ?case by simp
next
  case (step i)
  then show ?case
    using daysBeforeYear_next [of i] daysInYear_pos [of i] by simp
qed

lemma daysBeforeMonth_13: "daysBeforeMonth y 13 = daysInYear y"
  by (simp add: daysBeforeMonth_def daysInMonth_def daysInYear_def upto_rec1)

lemma within_year:
  assumes "validDate y m d"
  shows "0 \<le> daysBeforeMonth y m + (d - 1) \<and> daysBeforeMonth y m + (d - 1) < daysInYear y"
proof -
  have m: "1 \<le> m" "m + 1 \<le> 13" and d: "1 \<le> d" "d \<le> daysInMonth y m"
    using assms by (simp_all add: validDate_def)
  have "0 \<le> daysBeforeMonth y m"
    using daysBeforeMonth_mono [of 1 m y] m by (simp add: daysBeforeMonth_def)
  moreover have "daysBeforeMonth y (m + 1) \<le> daysInYear y"
    using daysBeforeMonth_mono [of "m + 1" 13 y] m by (simp add: daysBeforeMonth_13)
  ultimately show ?thesis
    using d daysBeforeMonth_next [OF m(1), of y] by simp
qed

lemma same_year_unique:
  assumes "validDate y m d" "validDate y m' d'"
    and "daysBeforeMonth y m + (d - 1) = daysBeforeMonth y m' + (d' - 1)"
  shows "m = m' \<and> d = d'"
proof -
  have lt: "daysBeforeMonth y a + (b - 1) < daysBeforeMonth y a' + (b' - 1)"
    if "validDate y a b" "validDate y a' b'" "a < a'" for a b a' b'
  proof -
    have "daysBeforeMonth y a + (b - 1) < daysBeforeMonth y (a + 1)"
      using that(1) daysBeforeMonth_next [of a y] by (simp add: validDate_def)
    also have "\<dots> \<le> daysBeforeMonth y a'"
      using that daysBeforeMonth_mono [of "a + 1" a' y] by (simp add: validDate_def)
    also have "\<dots> \<le> daysBeforeMonth y a' + (b' - 1)"
      using that(2) by (simp add: validDate_def)
    finally show ?thesis .
  qed
  have "m = m'"
  proof (rule ccontr)
    assume "m \<noteq> m'"
    then consider "m < m'" | "m' < m" by linarith
    then show False
      using lt [OF assms(1) assms(2)] lt [OF assms(2) assms(1)] assms(3) by cases simp_all
  qed
  then show ?thesis
    using assms(3) by simp
qed

lemma date_unique:
  assumes "validDate y m d" "validDate y' m' d'"
    and "daysSinceEpoch y m d = daysSinceEpoch y' m' d'"
  shows "y = y' \<and> m = m' \<and> d = d'"
proof -
  have lt: "daysSinceEpoch a b c < daysSinceEpoch a' b' c'"
    if "validDate a b c" "validDate a' b' c'" "a < a'" for a b c a' b' c'
  proof -
    have "daysSinceEpoch a b c < daysBeforeYear (a + 1)"
      using within_year [OF that(1)] by (simp add: daysSinceEpoch_def daysBeforeYear_next)
    also have "\<dots> \<le> daysBeforeYear a'"
      using that(3) by (intro daysBeforeYear_mono) simp
    also have "\<dots> \<le> daysSinceEpoch a' b' c'"
      using within_year [OF that(2)] by (simp add: daysSinceEpoch_def)
    finally show ?thesis .
  qed
  have y: "y = y'"
  proof (rule ccontr)
    assume "y \<noteq> y'"
    then consider "y < y'" | "y' < y" by linarith
    then show False
      using lt [OF assms(1) assms(2)] lt [OF assms(2) assms(1)] assms(3) by cases simp_all
  qed
  then show ?thesis
    using same_year_unique [of y m d m' d'] assms by (simp add: daysSinceEpoch_def)
qed

text \<open>What the digits printed for a number read back as.\<close>

lemma digit_char_value:
  assumes "k < 10"
  shows "digitValue 10 (''0123456789'' ! k) = Some (int k)"
proof -
  have "\<forall>j \<in> set [0..<10]. digitValue 10 (''0123456789'' ! j) = Some (int j)"
    by code_simp
  then show ?thesis
    using assms by simp
qed

lemma digitsValue_append:
  "digitsValue r acc (xs @ ys) = digitsValue r (digitsValue r acc xs) ys"
  by (induction xs arbitrary: acc) simp_all

lemma decimalString_value: "0 \<le> n \<Longrightarrow> digitsValue 10 0 (decimalString n) = n"
proof (induction n rule: decimalString.induct)
  case (1 n)
  show ?case
  proof (cases "n < 10")
    case True
    then have "nat n < 10" by simp
    then show ?thesis
      using True "1.prems" digit_char_value [of "nat n"]
      by (subst decimalString.simps) simp
  next
    case False
    have "nat (n mod 10) < 10" by simp
    then have c: "digitValue 10 (''0123456789'' ! nat (n mod 10)) = Some (n mod 10)"
      using digit_char_value [of "nat (n mod 10)"] by simp
    have ih: "digitsValue 10 0 (decimalString (n div 10)) = n div 10"
      using "1.IH" False "1.prems" by simp
    show ?thesis
      using False by (subst decimalString.simps) (simp add: digitsValue_append ih c)
  qed
qed

lemma zeros_value: "digitsValue 10 0 (replicate k CHR ''0'') = 0"
proof (induction k)
  case 0
  then show ?case by simp
next
  case (Suc k)
  have "digitValue 10 CHR ''0'' = Some 0"
    by code_simp
  then show ?case
    using Suc by simp
qed

lemma padStart_value: "digitsValue 10 0 (padStart k s) = digitsValue 10 0 s"
  by (simp add: padStart_def digitsValue_append zeros_value)

lemma decimalString_length:
  "0 \<le> n \<Longrightarrow> n < 10 ^ k \<Longrightarrow> 0 < k \<Longrightarrow> length (decimalString n) \<le> k"
proof (induction n arbitrary: k rule: decimalString.induct)
  case (1 n)
  show ?case
  proof (cases "n < 10")
    case True
    then show ?thesis
      using "1.prems" by (subst decimalString.simps) simp
  next
    case False
    obtain j where k: "k = Suc j"
      using "1.prems"(3) by (cases k) simp_all
    have j: "0 < j"
    proof (rule ccontr)
      assume "\<not> 0 < j"
      then have "k = 1" using k by simp
      then show False using "1.prems"(2) False by simp
    qed
    have "n div 10 < 10 ^ j"
      using "1.prems"(2) k by simp
    then have "length (decimalString (n div 10)) \<le> j"
      using "1.IH" [of j] False "1.prems"(1) j by simp
    then show ?thesis
      using False k by (subst decimalString.simps) simp
  qed
qed

lemma padStart_length: "length s \<le> k \<Longrightarrow> length (padStart k s) = k"
  by (simp add: padStart_def)

lemma two_digits:
  assumes "0 \<le> n" "n < 100"
  shows "length (padStart 2 (decimalString n)) = 2 \<and> digitsValue 10 0 (padStart 2 (decimalString n)) = n"
  using decimalString_length [of n 2] assms
  by (simp add: padStart_length padStart_value decimalString_value)

lemma four_digits:
  assumes "0 \<le> y" "y \<le> 9999"
  shows "length (yearString y) = 4 \<and> digitsValue 10 0 (yearString y) = y"
  using decimalString_length [of y 4] assms
  by (simp add: yearString_def padStart_length padStart_value decimalString_value)

lemma daysInMonth_le_31: "daysInMonth y m \<le> 31"
  by (simp add: daysInMonth_def)


section \<open>Properties of the actions\<close>

subsection \<open>Validation of the amount\<close>

text \<open>
  C1, as the code has it. Let \<open>a\<close> be the number the amount field coerces to. When
  \<open>a \<le> 0\<close> (an absent or empty amount coerces to \<open>0\<close>), \<open>createInvoice\<close> and
  \<open>updateInvoice\<close> return a state whose \<^verbatim>\<open>errors.amount\<close> is the one message
  \<^verbatim>\<open>Please enter an amount greater than $0.\<close>; when \<open>a\<close> is NaN (a text that is no
  number, or a file), \<^verbatim>\<open>errors.amount\<close> is the library's
  \<^verbatim>\<open>Expected number, received nan\<close> instead. Either way the state carries the summary
  message of the action, and the world is returned as it was: no statement was sent, no
  path revalidated, and the action returned rather than redirected.
\<close>

theorem amount_rejected:
  assumes "a = Number (formData_get fd ''amount'')"
    and "a = NaN \<or> js_le a (Finite 0 0)"
  shows "(\<exists>errs. createInvoice e p fd w =
            (Returns \<lparr>errors = Some errs,
                      message = Some ''Missing Fields. Failed to create invoices.''\<rparr>, w)
          \<and> map_of errs ''amount'' =
              Some [if a = NaN then ''Expected number, received nan''
                    else ''Please enter an amount greater than $0.''])
       \<and> (\<exists>errs. updateInvoice e i p fd w =
            (Returns \<lparr>errors = Some errs,
                      message = Some ''Missing Fields. Failed to update invoice''\<rparr>, w)
          \<and> map_of errs ''amount'' =
              Some [if a = NaN then ''Expected number, received nan''
                    else ''Please enter an amount greater than $0.''])"
proof -
  let ?issues = "customerIdIssues (formData_get fd ''customerId'')
       @ amountIssues (formData_get fd ''amount'') @ statusIssues (formData_get fd ''status'')"
  have "amountIssues (formData_get fd ''amount'') \<noteq> []"
    using assms by (auto simp add: amountIssues_def)
  then have rejected: "?issues \<noteq> []"
    by simp
  have at: "map_of (fieldErrors ?issues) ''amount'' =
              Some [if a = NaN then ''Expected number, received nan''
                    else ''Please enter an amount greater than $0.'']"
    using assms by (auto simp add: fieldErrors_amount)
  show ?thesis
    using at by (simp add: rejected_results [OF rejected])
qed

text \<open>The amount \<^verbatim>\<open>0\<close> of a form that is otherwise in order.\<close>

theorem amount_rejected_witness:
  "(Number (formData_get (form ''c1'' ''0'' ''pending'') ''amount'') = NaN
      \<or> js_le (Number (formData_get (form ''c1'' ''0'' ''pending'') ''amount'')) (Finite 0 0))
   \<and> (\<exists>errs. createInvoice sampleEnv noState (form ''c1'' ''0'' ''pending'') sampleWorld =
            (Returns \<lparr>errors = Some errs,
                      message = Some ''Missing Fields. Failed to create invoices.''\<rparr>, sampleWorld)
          \<and> map_of errs ''amount'' = Some [''Please enter an amount greater than $0.''])
   \<and> (\<exists>errs. updateInvoice sampleEnv ''inv-42'' noState (form ''c1'' ''0'' ''pending'') sampleWorld =
            (Returns \<lparr>errors = Some errs,
                      message = Some ''Missing Fields. Failed to update invoice''\<rparr>, sampleWorld)
          \<and> map_of errs ''amount'' = Some [''Please enter an amount greater than $0.''])"
proof -
  have n: "Number (formData_get (form ''c1'' ''0'' ''pending'') ''amount'') = Finite 0 0"
    by code_simp
  have h: "Number (formData_get (form ''c1'' ''0'' ''pending'') ''amount'') = NaN
      \<or> js_le (Number (formData_get (form ''c1'' ''0'' ''pending'') ''amount'')) (Finite 0 0)"
    by (simp add: n)
  show ?thesis
    using h amount_rejected [OF refl h, where e = sampleEnv and p = noState and w = sampleWorld
        and i = "''inv-42''"]
    by (simp add: n)
qed

text \<open>
  The amount \<^verbatim>\<open>abc\<close> is rejected, but not with the message for an amount that is
  not above zero: the number check stops at the type of the coerced value, before the
  bound is looked at.
\<close>

theorem amount_not_numeric_counterexample:
  "Number (formData_get (form ''c1'' ''abc'' ''pending'') ''amount'') = NaN
   \<and> createInvoice sampleEnv noState (form ''c1'' ''abc'' ''pending'') sampleWorld =
       (Returns \<lparr>errors = Some [(''amount'', [''Expected number, received nan''])],
                 message = Some ''Missing Fields. Failed to create invoices.''\<rparr>, sampleWorld)
   \<and> ''Please enter an amount greater than $0.'' \<notin> set [''Expected number, received nan'']"
  by code_simp


subsection \<open>The amount that is stored\<close>

text \<open>
  C2 does not hold of the code. The form with customerId \<open>c\<close>, amount \<^verbatim>\<open>1.15\<close> and
  status \<^verbatim>\<open>pending\<close> passes the validation of both actions, whatever \<open>c\<close> is. The
  amount is coerced to the double nearest to \<open>1.15\<close>, and \<^verbatim>\<open>amount * 100\<close> is the
  double \<open>8092405580431359 / 2 ^ 46\<close>, which the language prints as
  \<^verbatim>\<open>114.99999999999999\<close>: it lies strictly between \<open>114\<close> and \<open>115\<close>. No rounding
  follows, so this number, and not \<open>115\<close>, is the amount bound in the one statement
  that \<open>createInvoice\<close> and \<open>updateInvoice\<close> send, at every clock reading, with every
  database, from every previous state and for every invoice. The amounts \<^verbatim>\<open>19.99\<close>
  and \<^verbatim>\<open>8.95\<close> miss their whole number of cents in the same way.
\<close>

theorem amount_not_whole_cents:
  "let fd = form c ''1.15'' ''pending'';
       cents = JNumber (Finite 8092405580431359 46);
       ins = INSERT_INTO_invoices (JString c) cents (JString ''pending'') (JString (isoDay (now e)));
       upd = UPDATE_invoices (JString c) cents (JString ''pending'') i
   in safeParse CreateInvoice (formFields fd) =
        ParseSuccess [(''customerId'', JString c), (''amount'', JNumber (Finite 2589569785738035 51)),
                      (''status'', JString ''pending'')]
    \<and> safeParse UpdateInvoice (formFields fd) =
        ParseSuccess [(''customerId'', JString c), (''amount'', JNumber (Finite 2589569785738035 51)),
                      (''status'', JString ''pending'')]
    \<and> js_times (JNumber (Finite 2589569785738035 51)) (JNumber (Finite 100 0)) = cents
    \<and> events (snd (createInvoice e p fd w)) =
        events w @ SqlCall ins #
          (if sql_raises e ins = None then [RevalidatePath ''/dashboard/invoices''] else [])
    \<and> events (snd (updateInvoice e i p fd w)) =
        events w @ SqlCall upd #
          (if sql_raises e upd = None then [RevalidatePath ''/dashboard/invoices''] else [])
    \<and> cents \<noteq> JNumber (Finite 115 0)
    \<and> jsnum_value (Finite 8092405580431359 46) = Some (8092405580431359 / 2 ^ 46)
    \<and> (114 :: rat) < 8092405580431359 / 2 ^ 46
    \<and> (8092405580431359 / 2 ^ 46 :: rat) < 115
    \<and> js_mul (StringToNumber ''19.99'') (Finite 100 0) = Finite 8791694975696895 42
    \<and> js_mul (StringToNumber ''8.95'') (Finite 100 0) = Finite 7872503254876159 43"
proof -
  let ?fd = "form c ''1.15'' ''pending''"
  let ?cents = "JNumber (Finite 8092405580431359 46)"
  let ?ins = "INSERT_INTO_invoices (JString c) ?cents (JString ''pending'') (JString (isoDay (now e)))"
  let ?upd = "UPDATE_invoices (JString c) ?cents (JString ''pending'') i"
  have n: "Number (JString ''1.15'') = Finite 2589569785738035 51"
    by code_simp
  have m: "js_mul (Finite 2589569785738035 51) (Finite 100 0) = Finite 8092405580431359 46"
    by code_simp
  have t: "js_times (JNumber (Finite 2589569785738035 51)) (JNumber (Finite 100 0)) = ?cents"
    by code_simp
  have le: "\<not> js_le (Finite 2589569785738035 51) (Finite 0 0)"
    by code_simp
  have st: "statusIssues (JString ''pending'') = []"
    by code_simp
  have am: "amountIssues (JString ''1.15'') = []"
    unfolding amountIssues_def n using le by simp
  have cu: "customerIdIssues (JString c) = []"
    by (simp add: customerIdIssues_def)
  have h1: "safeParse CreateInvoice (formFields ?fd) =
        ParseSuccess [(''customerId'', JString c), (''amount'', JNumber (Finite 2589569785738035 51)),
                      (''status'', JString ''pending'')]"
    unfolding safeParse_form Let_def form_get cu am st n by simp
  have h2: "safeParse UpdateInvoice (formFields ?fd) =
        ParseSuccess [(''customerId'', JString c), (''amount'', JNumber (Finite 2589569785738035 51)),
                      (''status'', JString ''pending'')]"
    using h1 by (simp add: UpdateInvoice_def CreateInvoice_def)
  have ec: "events (snd (createInvoice e p ?fd w)) =
        events w @ SqlCall ?ins #
          (if sql_raises e ?ins = None then [RevalidatePath ''/dashboard/invoices''] else [])"
    unfolding createInvoice_accepted [OF h1] Let_def form_get n m
    by (simp split: option.split)
  have eu: "events (snd (updateInvoice e i p ?fd w)) =
        events w @ SqlCall ?upd #
          (if sql_raises e ?upd = None then [RevalidatePath ''/dashboard/invoices''] else [])"
    unfolding updateInvoice_accepted [OF h2] Let_def form_get n m
    by (simp split: option.split)
  have ne: "?cents \<noteq> JNumber (Finite 115 0)"
    by simp
  have v: "jsnum_value (Finite 8092405580431359 46) = Some (8092405580431359 / 2 ^ 46)"
    by simp
  have b: "(114 :: rat) < 8092405580431359 / 2 ^ 46 \<and> (8092405580431359 / 2 ^ 46 :: rat) < 115"
    by simp
  have o1: "js_mul (StringToNumber ''19.99'') (Finite 100 0) = Finite 8791694975696895 42"
    by code_simp
  have o2: "js_mul (StringToNumber ''8.95'') (Finite 100 0) = Finite 7872503254876159 43"
    by code_simp
  show ?thesis
    unfolding Let_def using h1 h2 t ec eu ne v b o1 o2 by blast
qed

text \<open>
  At the sample clock reading, with the database that accepts every statement: the
  statement each action sends for \<^verbatim>\<open>1.15\<close>, and the row \<open>createInvoice\<close> leaves.
\<close>

theorem amount_not_whole_cents_witness:
  "events (snd (createInvoice sampleEnv noState (form ''c1'' ''1.15'' ''pending'') sampleWorld)) =
     [SqlCall (INSERT_INTO_invoices (JString ''c1'') (JNumber (Finite 8092405580431359 46))
                 (JString ''pending'') (JString ''2024-11-03'')),
      RevalidatePath ''/dashboard/invoices'']
   \<and> events (snd (updateInvoice sampleEnv ''inv-42'' noState (form ''c1'' ''1.15'' ''pending'')
        sampleWorld)) =
     [SqlCall (UPDATE_invoices (JString ''c1'') (JNumber (Finite 8092405580431359 46))
                 (JString ''pending'') ''inv-42''),
      RevalidatePath ''/dashboard/invoices'']
   \<and> createInvoice sampleEnv noState (form ''c1'' ''1.15'' ''pending'') sampleWorld =
     (Redirects ''/dashboard/invoices'',
      \<lparr>invoices = invoices sampleWorld @
         [\<lparr>row_id = ''inv-100'', row_customer_id = JString ''c1'',
           row_amount = JNumber (Finite 8092405580431359 46),
           row_status = JString ''pending'', row_date = JString ''2024-11-03''\<rparr>],
       events =
         [SqlCall (INSERT_INTO_invoices (JString ''c1'') (JNumber (Finite 8092405580431359 46))
                     (JString ''pending'') (JString ''2024-11-03'')),
          RevalidatePath ''/dashboard/invoices'']\<rparr>)"
proof -
  let ?fd = "form ''c1'' ''1.15'' ''pending''"
  let ?cents = "JNumber (Finite 8092405580431359 46)"
  note t = amount_not_whole_cents [where c = "''c1''" and e = sampleEnv and i = "''inv-42''"
        and p = noState and w = sampleWorld, unfolded Let_def]
  have d: "isoDay (now sampleEnv) = ''2024-11-03''"
    and ev: "events sampleWorld = []"
    by code_simp+
  have n: "sql_raises sampleEnv = (\<lambda>st. None)"
    by (simp add: sampleEnv_def)
  have "events (snd (createInvoice sampleEnv noState ?fd sampleWorld)) =
      events sampleWorld @ SqlCall (INSERT_INTO_invoices (JString ''c1'') ?cents
                     (JString ''pending'') (JString (isoDay (now sampleEnv)))) #
        (if sql_raises sampleEnv (INSERT_INTO_invoices (JString ''c1'') ?cents
                     (JString ''pending'') (JString (isoDay (now sampleEnv)))) = None
         then [RevalidatePath ''/dashboard/invoices''] else [])"
    using t by (elim conjE)
  then have ec: "events (snd (createInvoice sampleEnv noState ?fd sampleWorld)) =
       [SqlCall (INSERT_INTO_invoices (JString ''c1'') ?cents (JString ''pending'')
                  (JString ''2024-11-03'')),
        RevalidatePath ''/dashboard/invoices'']"
    unfolding d n ev by simp
  have "events (snd (updateInvoice sampleEnv ''inv-42'' noState ?fd sampleWorld)) =
      events sampleWorld @ SqlCall (UPDATE_invoices (JString ''c1'') ?cents
                     (JString ''pending'') ''inv-42'') #
        (if sql_raises sampleEnv (UPDATE_invoices (JString ''c1'') ?cents
                     (JString ''pending'') ''inv-42'') = None
         then [RevalidatePath ''/dashboard/invoices''] else [])"
    using t by (elim conjE)
  then have eu: "events (snd (updateInvoice sampleEnv ''inv-42'' noState ?fd sampleWorld)) =
       [SqlCall (UPDATE_invoices (JString ''c1'') ?cents (JString ''pending'') ''inv-42''),
        RevalidatePath ''/dashboard/invoices'']"
    unfolding n ev by simp
  have r: "createInvoice sampleEnv noState ?fd sampleWorld =
     (Redirects ''/dashboard/invoices'',
      \<lparr>invoices = invoices sampleWorld @
         [\<lparr>row_id = ''inv-100'', row_customer_id = JString ''c1'',
           row_amount = ?cents,
           row_status = JString ''pending'', row_date = JString ''2024-11-03''\<rparr>],
       events =
         [SqlCall (INSERT_INTO_invoices (JString ''c1'') ?cents
                     (JString ''pending'') (JString ''2024-11-03'')),
          RevalidatePath ''/dashboard/invoices'']\<rparr>)"
    by code_simp
  show ?thesis
    using ec eu r by blast
qed


subsection \<open>Validation of the customer\<close>

text \<open>
  C3, as the code has it. The customer schema is \<^verbatim>\<open>z.string\<close> with a message for a
  value of the wrong type and no length check. So for every form whose customerId is not
  a string (the field is absent, or holds a file), \<open>createInvoice\<close> and \<open>updateInvoice\<close>
  return a state whose \<^verbatim>\<open>errors.customerId\<close> is the one message
  \<^verbatim>\<open>Please select a customer\<close>, and the world is returned as it was: no statement was
  sent. The empty string is a string, and is not rejected.
\<close>

theorem customerId_rejected:
  assumes "\<forall>x. formData_get fd ''customerId'' \<noteq> JString x"
  shows "(\<exists>errs. createInvoice e p fd w =
            (Returns \<lparr>errors = Some errs,
                      message = Some ''Missing Fields. Failed to create invoices.''\<rparr>, w)
          \<and> map_of errs ''customerId'' = Some [''Please select a customer''])
       \<and> (\<exists>errs. updateInvoice e i p fd w =
            (Returns \<lparr>errors = Some errs,
                      message = Some ''Missing Fields. Failed to update invoice''\<rparr>, w)
          \<and> map_of errs ''customerId'' = Some [''Please select a customer''])"
proof -
  let ?issues = "customerIdIssues (formData_get fd ''customerId'')
       @ amountIssues (formData_get fd ''amount'') @ statusIssues (formData_get fd ''status'')"
  have "customerIdIssues (formData_get fd ''customerId'') \<noteq> []"
    using assms by (cases "formData_get fd ''customerId''") (simp_all add: customerIdIssues_def)
  then have rejected: "?issues \<noteq> []"
    by simp
  have at: "map_of (fieldErrors ?issues) ''customerId'' = Some [''Please select a customer'']"
    using assms by (simp add: fieldErrors_customerId)
  show ?thesis
    using at by (simp add: rejected_results [OF rejected])
qed

text \<open>A form with an amount and a status and no customerId entry.\<close>

theorem customerId_rejected_witness:
  "(\<forall>x. formData_get [(''amount'', EntryString ''10''), (''status'', EntryString ''paid'')] ''customerId''
          \<noteq> JString x)
   \<and> (\<exists>errs. createInvoice sampleEnv noState
                 [(''amount'', EntryString ''10''), (''status'', EntryString ''paid'')] sampleWorld =
            (Returns \<lparr>errors = Some errs,
                      message = Some ''Missing Fields. Failed to create invoices.''\<rparr>, sampleWorld)
          \<and> map_of errs ''customerId'' = Some [''Please select a customer''])
   \<and> (\<exists>errs. updateInvoice sampleEnv ''inv-42'' noState
                 [(''amount'', EntryString ''10''), (''status'', EntryString ''paid'')] sampleWorld =
            (Returns \<lparr>errors = Some errs,
                      message = Some ''Missing Fields. Failed to update invoice''\<rparr>, sampleWorld)
          \<and> map_of errs ''customerId'' = Some [''Please select a customer''])"
proof -
  have h: "\<forall>x. formData_get [(''amount'', EntryString ''10''), (''status'', EntryString ''paid'')] ''customerId''
          \<noteq> JString x"
    by (simp add: formData_get_def)
  show ?thesis
    using h customerId_rejected [OF h, where e = sampleEnv and p = noState and w = sampleWorld
        and i = "''inv-42''"]
    by blast
qed

text \<open>
  A form whose customerId is the empty string passes validation: \<open>createInvoice\<close>
  inserts a row with the empty customer reference and redirects, and \<open>updateInvoice\<close>
  writes the empty reference into the row it updates.
\<close>

theorem empty_customerId_counterexample:
  "formData_get (form '''' ''10'' ''paid'') ''customerId'' = JString ''''
   \<and> createInvoice sampleEnv noState (form '''' ''10'' ''paid'') sampleWorld =
     (Redirects ''/dashboard/invoices'',
      \<lparr>invoices = invoices sampleWorld @
         [\<lparr>row_id = ''inv-100'', row_customer_id = JString '''',
           row_amount = JNumber (Finite 1000 0),
           row_status = JString ''paid'', row_date = JString ''2024-11-03''\<rparr>],
       events =
         [SqlCall (INSERT_INTO_invoices (JString '''') (JNumber (Finite 1000 0))
                     (JString ''paid'') (JString ''2024-11-03'')),
          RevalidatePath ''/dashboard/invoices'']\<rparr>)
   \<and> updateInvoice sampleEnv ''inv-43'' noState (form '''' ''10'' ''paid'') sampleWorld =
     (Redirects ''/dashboard/invoices'',
      \<lparr>invoices =
         [\<lparr>row_id = ''inv-42'', row_customer_id = JString ''c1'',
           row_amount = JNumber (Finite 1500 0), row_status = JString ''pending'',
           row_date = JString ''2024-10-01''\<rparr>,
          \<lparr>row_id = ''inv-43'', row_customer_id = JString '''',
           row_amount = JNumber (Finite 1000 0), row_status = JString ''paid'',
           row_date = JString ''2024-10-02''\<rparr>],
       events =
         [SqlCall (UPDATE_invoices (JString '''') (JNumber (Finite 1000 0)) (JString ''paid'') ''inv-43''),
          RevalidatePath ''/dashboard/invoices'']\<rparr>)"
  by code_simp


subsection \<open>The date of a new invoice\<close>

text \<open>
  C4, as the code has it. \<open>CreateInvoice\<close> has the keys customerId, amount and status and
  no others. For every form it accepts, the date bound in the statement \<open>createInvoice\<close>
  sends, and the date of the row the table then holds, is the UTC calendar day of the
  clock reading at the call, as \<^verbatim>\<open>YYYY-MM-DD\<close>: cutting \<^verbatim>\<open>toISOString()\<close> at its
  \<open>T\<close> leaves year, month and day of a valid calendar date, the only one that lies as
  many whole days after the first of January 1970 as the clock reading does, and the two
  digits of the month and of the day, and the four of a year from \<open>0\<close> to \<open>9999\<close>, read
  back as these numbers. Nothing else of the form is read: two forms that agree on
  customerId, amount and status give the same result, whatever entries named date or id
  they hold. The time zone of the system plays no part.
\<close>

theorem created_date:
  assumes "safeParse CreateInvoice (formFields fd) = ParseSuccess data"
  shows "let t = now e;
             y = YearFromTime t; m = MonthFromTime t + 1; d = DateFromTime t;
             mm = padStart 2 (decimalString m); dd = padStart 2 (decimalString d);
             day = JString (yearString y @ ''-'' @ mm @ ''-'' @ dd);
             cents = JNumber (js_mul (Number (formData_get fd ''amount'')) (Finite 100 0));
             ins = INSERT_INTO_invoices (formData_get fd ''customerId'') cents
                     (formData_get fd ''status'') day;
             w' = snd (createInvoice e p fd w)
         in map fst CreateInvoice = [''customerId'', ''amount'', ''status'']
          \<and> splitT0 (toISOString t) = yearString y @ ''-'' @ mm @ ''-'' @ dd
          \<and> validDate y m d
          \<and> daysSinceEpoch y m d = t div 86400000
          \<and> (\<forall>y' m' d'. validDate y' m' d' \<and> daysSinceEpoch y' m' d' = t div 86400000
                \<longrightarrow> y' = y \<and> m' = m \<and> d' = d)
          \<and> length mm = 2 \<and> digitsValue 10 0 mm = m
          \<and> length dd = 2 \<and> digitsValue 10 0 dd = d
          \<and> (0 \<le> y \<and> y \<le> 9999 \<longrightarrow> length (yearString y) = 4 \<and> digitsValue 10 0 (yearString y) = y)
          \<and> events w' = events w @ SqlCall ins #
               (if sql_raises e ins = None then [RevalidatePath ''/dashboard/invoices''] else [])
          \<and> invoices w' =
               (if sql_raises e ins = None
                then invoices w @
                  [\<lparr>row_id = new_row_id e, row_customer_id = formData_get fd ''customerId'',
                    row_amount = cents, row_status = formData_get fd ''status'',
                    row_date = day\<rparr>]
                else invoices w)
          \<and> (\<forall>fd' p' z. formData_get fd' ''customerId'' = formData_get fd ''customerId''
                     \<and> formData_get fd' ''amount'' = formData_get fd ''amount''
                     \<and> formData_get fd' ''status'' = formData_get fd ''status''
                  \<longrightarrow> createInvoice (e\<lparr>localTZA := z\<rparr>) p' fd' w = createInvoice e p fd w)"
proof -
  let ?t = "now e"
  let ?y = "YearFromTime ?t" and ?m = "MonthFromTime ?t + 1" and ?d = "DateFromTime ?t"
  let ?ins = "INSERT_INTO_invoices (formData_get fd ''customerId'')
                     (JNumber (js_mul (Number (formData_get fd ''amount'')) (Finite 100 0)))
                     (formData_get fd ''status'') (JString (isoDay ?t))"
  have day: "isoDay ?t =
      yearString ?y @ ''-'' @ padStart 2 (decimalString ?m) @ ''-'' @ padStart 2 (decimalString ?d)"
    by (simp add: isoDay_def)
  have keys: "map fst CreateInvoice = [''customerId'', ''amount'', ''status'']"
    by (simp add: CreateInvoice_shape)
  have cut: "splitT0 (toISOString ?t) = isoDay ?t"
    by (rule splitT0_toISOString)
  have valid: "validDate ?y ?m ?d"
    using utc_date [of ?t] by (simp add: validDate_def)
  have count: "daysSinceEpoch ?y ?m ?d = ?t div 86400000"
    using utc_date [of ?t] by simp
  have only: "y' = ?y \<and> m' = ?m \<and> d' = ?d"
    if "validDate y' m' d' \<and> daysSinceEpoch y' m' d' = ?t div 86400000" for y' m' d'
    using that date_unique [of y' m' d' ?y ?m ?d] valid count by simp
  have m2: "length (padStart 2 (decimalString ?m)) = 2
      \<and> digitsValue 10 0 (padStart 2 (decimalString ?m)) = ?m"
    using valid by (intro two_digits) (simp_all add: validDate_def)
  have d2: "length (padStart 2 (decimalString ?d)) = 2
      \<and> digitsValue 10 0 (padStart 2 (decimalString ?d)) = ?d"
    using valid daysInMonth_le_31 [of ?y ?m] by (intro two_digits) (simp_all add: validDate_def)
  have y4: "length (yearString ?y) = 4 \<and> digitsValue 10 0 (yearString ?y) = ?y"
    if "0 \<le> ?y \<and> ?y \<le> 9999"
    using that by (intro four_digits) simp_all
  have same: "createInvoice (e\<lparr>localTZA := z\<rparr>) p' fd' w = createInvoice e p fd w"
    if "formData_get fd' ''customerId'' = formData_get fd ''customerId''
        \<and> formData_get fd' ''amount'' = formData_get fd ''amount''
        \<and> formData_get fd' ''status'' = formData_get fd ''status''" for fd' p' z
    using that by (simp add: createInvoice_eq Let_def del: js_mul.simps)
  have ev: "events (snd (createInvoice e p fd w)) = events w @ SqlCall ?ins #
               (if sql_raises e ?ins = None then [RevalidatePath ''/dashboard/invoices''] else [])"
    by (simp add: createInvoice_accepted [OF assms] Let_def del: js_mul.simps split: option.split)
  have inv: "invoices (snd (createInvoice e p fd w)) =
               (if sql_raises e ?ins = None
                then invoices w @
                  [\<lparr>row_id = new_row_id e, row_customer_id = formData_get fd ''customerId'',
                    row_amount = JNumber (js_mul (Number (formData_get fd ''amount'')) (Finite 100 0)),
                    row_status = formData_get fd ''status'', row_date = JString (isoDay ?t)\<rparr>]
                else invoices w)"
    by (simp add: createInvoice_accepted [OF assms] Let_def del: js_mul.simps split: option.split)
  show ?thesis
    unfolding Let_def
    using keys cut valid count only m2 d2 y4 same ev inv unfolding day by blast
qed

text \<open>
  A form that also carries a date and an id of its own, at two clock readings,
  \<^verbatim>\<open>2024-11-03T08:00:00.123Z\<close> and \<^verbatim>\<open>2000-02-29T23:59:59.999Z\<close>: the row gets
  the day of the clock, the 20030th and the 11016th after the first of January 1970, and
  the identifier of the table.
\<close>

theorem created_date_witness:
  "safeParse CreateInvoice
      (formFields ((''date'', EntryString ''1999-12-31'') # (''id'', EntryString ''inv-1'')
                    # form ''c1'' ''250.00'' ''pending'')) =
     ParseSuccess [(''customerId'', JString ''c1''), (''amount'', JNumber (Finite 250 0)),
                   (''status'', JString ''pending'')]
   \<and> toISOString (now sampleEnv) = ''2024-11-03T08:00:00.123Z''
   \<and> validDate 2024 11 3 \<and> daysSinceEpoch 2024 11 3 = 20030
   \<and> now sampleEnv div 86400000 = 20030
   \<and> events (snd (createInvoice sampleEnv noState
        ((''date'', EntryString ''1999-12-31'') # (''id'', EntryString ''inv-1'')
          # form ''c1'' ''250.00'' ''pending'') sampleWorld)) =
       [SqlCall (INSERT_INTO_invoices (JString ''c1'') (JNumber (Finite 25000 0))
                   (JString ''pending'') (JString ''2024-11-03'')),
        RevalidatePath ''/dashboard/invoices'']
   \<and> toISOString (now leapDayEnv) = ''2000-02-29T23:59:59.999Z''
   \<and> validDate 2000 2 29 \<and> daysSinceEpoch 2000 2 29 = 11016
   \<and> now leapDayEnv div 86400000 = 11016
   \<and> invoices (snd (createInvoice leapDayEnv noState
        ((''date'', EntryString ''1999-12-31'') # (''id'', EntryString ''inv-1'')
          # form ''c1'' ''250.00'' ''pending'') sampleWorld)) =
       invoices sampleWorld @
         [\<lparr>row_id = ''inv-100'', row_customer_id = JString ''c1'',
           row_amount = JNumber (Finite 25000 0),
           row_status = JString ''pending'', row_date = JString ''2000-02-29''\<rparr>]"
proof -
  let ?fd = "(''date'', EntryString ''1999-12-31'') # (''id'', EntryString ''inv-1'')
                    # form ''c1'' ''250.00'' ''pending''"
  let ?cents = "JNumber (js_mul (Number (formData_get ?fd ''amount'')) (Finite 100 0))"
  let ?day = "\<lambda>t. JString (yearString (YearFromTime t) @ ''-'' @
                padStart 2 (decimalString (MonthFromTime t + 1)) @ ''-'' @
                padStart 2 (decimalString (DateFromTime t)))"
  let ?ins = "\<lambda>t. INSERT_INTO_invoices (formData_get ?fd ''customerId'') ?cents
                (formData_get ?fd ''status'') (?day t)"
  have h: "safeParse CreateInvoice (formFields ?fd) =
     ParseSuccess [(''customerId'', JString ''c1''), (''amount'', JNumber (Finite 250 0)),
                   (''status'', JString ''pending'')]"
    by code_simp
  note s = created_date [OF h, where e = sampleEnv and p = noState and w = sampleWorld,
      unfolded Let_def]
  note l = created_date [OF h, where e = leapDayEnv and p = noState and w = sampleWorld,
      unfolded Let_def]
  have ts: "toISOString (now sampleEnv) = ''2024-11-03T08:00:00.123Z''"
    and tl: "toISOString (now leapDayEnv) = ''2000-02-29T23:59:59.999Z''"
    by code_simp+
  have ys: "YearFromTime (now sampleEnv) = 2024" and ms: "MonthFromTime (now sampleEnv) + 1 = 11"
    and ds: "DateFromTime (now sampleEnv) = 3" and qs: "now sampleEnv div 86400000 = 20030"
    by code_simp+
  have yl: "YearFromTime (now leapDayEnv) = 2000" and ml: "MonthFromTime (now leapDayEnv) + 1 = 2"
    and dl: "DateFromTime (now leapDayEnv) = 29" and ql: "now leapDayEnv div 86400000 = 11016"
    by code_simp+
  have "validDate (YearFromTime (now sampleEnv)) (MonthFromTime (now sampleEnv) + 1)
          (DateFromTime (now sampleEnv))"
    using s by (elim conjE)
  then have vs: "validDate 2024 11 3"
    unfolding ys ms ds .
  have "daysSinceEpoch (YearFromTime (now sampleEnv)) (MonthFromTime (now sampleEnv) + 1)
          (DateFromTime (now sampleEnv)) = now sampleEnv div 86400000"
    using s by (elim conjE)
  then have cs: "daysSinceEpoch 2024 11 3 = 20030"
    unfolding ys ms ds qs .
  have "validDate (YearFromTime (now leapDayEnv)) (MonthFromTime (now leapDayEnv) + 1)
          (DateFromTime (now leapDayEnv))"
    using l by (elim conjE)
  then have vl: "validDate 2000 2 29"
    unfolding yl ml dl .
  have "daysSinceEpoch (YearFromTime (now leapDayEnv)) (MonthFromTime (now leapDayEnv) + 1)
          (DateFromTime (now leapDayEnv)) = now leapDayEnv div 86400000"
    using l by (elim conjE)
  then have cl: "daysSinceEpoch 2000 2 29 = 11016"
    unfolding yl ml dl ql .
  have ns: "\<And>st. (sql_raises sampleEnv st = None) = True"
    and nl: "\<And>st. (sql_raises leapDayEnv st = None) = True"
    by (simp_all add: leapDayEnv_def sampleEnv_def)
  have qi: "?ins (now sampleEnv) =
      INSERT_INTO_invoices (JString ''c1'') (JNumber (Finite 25000 0))
                   (JString ''pending'') (JString ''2024-11-03'')"
    by code_simp
  have rl: "\<lparr>row_id = new_row_id leapDayEnv, row_customer_id = formData_get ?fd ''customerId'',
             row_amount = ?cents, row_status = formData_get ?fd ''status'',
             row_date = ?day (now leapDayEnv)\<rparr> =
           \<lparr>row_id = ''inv-100'', row_customer_id = JString ''c1'',
             row_amount = JNumber (Finite 25000 0),
             row_status = JString ''pending'', row_date = JString ''2000-02-29''\<rparr>"
    by code_simp
  have ev: "events sampleWorld = []"
    by code_simp
  have "events (snd (createInvoice sampleEnv noState ?fd sampleWorld)) =
       events sampleWorld @ SqlCall (?ins (now sampleEnv)) #
         (if sql_raises sampleEnv (?ins (now sampleEnv)) = None
          then [RevalidatePath ''/dashboard/invoices''] else [])"
    using s by (elim conjE)
  then have es: "events (snd (createInvoice sampleEnv noState ?fd sampleWorld)) =
       [SqlCall (INSERT_INTO_invoices (JString ''c1'') (JNumber (Finite 25000 0))
                   (JString ''pending'') (JString ''2024-11-03'')),
        RevalidatePath ''/dashboard/invoices'']"
    unfolding ns qi ev if_True append_Nil .
  have "invoices (snd (createInvoice leapDayEnv noState ?fd sampleWorld)) =
       (if sql_raises leapDayEnv (?ins (now leapDayEnv)) = None
        then invoices sampleWorld @
          [\<lparr>row_id = new_row_id leapDayEnv, row_customer_id = formData_get ?fd ''customerId'',
            row_amount = ?cents, row_status = formData_get ?fd ''status'',
            row_date = ?day (now leapDayEnv)\<rparr>]
        else invoices sampleWorld)"
    using l by (elim conjE)
  then have il: "invoices (snd (createInvoice leapDayEnv noState ?fd sampleWorld)) =
       invoices sampleWorld @
         [\<lparr>row_id = ''inv-100'', row_customer_id = JString ''c1'',
           row_amount = JNumber (Finite 25000 0),
           row_status = JString ''pending'', row_date = JString ''2000-02-29''\<rparr>]"
    unfolding nl rl if_True .
  show ?thesis
    using h ts vs cs qs es tl vl cl ql il by blast
qed

text \<open>
  The day stored is not always the day the system's own calendar shows. At
  \<^verbatim>\<open>2024-11-03T23:30:00.000Z\<close> on a system two hours ahead of UTC the local date is
  the fourth of November, and the invoice is dated the third.
\<close>

theorem local_day_counterexample:
  "safeParse CreateInvoice (formFields (form ''c1'' ''250.00'' ''pending'')) =
     ParseSuccess [(''customerId'', JString ''c1''), (''amount'', JNumber (Finite 250 0)),
                   (''status'', JString ''pending'')]
   \<and> toISOString (now lateEnv) = ''2024-11-03T23:30:00.000Z''
   \<and> localTZA lateEnv = 2 * 60 * 60 * 1000
   \<and> localDay lateEnv = ''2024-11-04''
   \<and> createInvoice lateEnv noState (form ''c1'' ''250.00'' ''pending'') sampleWorld =
     (Redirects ''/dashboard/invoices'',
      \<lparr>invoices = invoices sampleWorld @
         [\<lparr>row_id = ''inv-100'', row_customer_id = JString ''c1'',
           row_amount = JNumber (Finite 25000 0),
           row_status = JString ''pending'', row_date = JString ''2024-11-03''\<rparr>],
       events =
         [SqlCall (INSERT_INTO_invoices (JString ''c1'') (JNumber (Finite 25000 0))
                     (JString ''pending'') (JString ''2024-11-03'')),
          RevalidatePath ''/dashboard/invoices'']\<rparr>)
   \<and> JString (localDay lateEnv) \<noteq> JString ''2024-11-03''"
proof -
  have a: "safeParse CreateInvoice (formFields (form ''c1'' ''250.00'' ''pending'')) =
     ParseSuccess [(''customerId'', JString ''c1''), (''amount'', JNumber (Finite 250 0)),
                   (''status'', JString ''pending'')]"
    and b: "toISOString (now lateEnv) = ''2024-11-03T23:30:00.000Z''"
    and c: "localTZA lateEnv = 2 * 60 * 60 * 1000"
    and d: "localDay lateEnv = ''2024-11-04''"
    and e: "createInvoice lateEnv noState (form ''c1'' ''250.00'' ''pending'') sampleWorld =
     (Redirects ''/dashboard/invoices'',
      \<lparr>invoices = invoices sampleWorld @
         [\<lparr>row_id = ''inv-100'', row_customer_id = JString ''c1'',
           row_amount = JNumber (Finite 25000 0),
           row_status = JString ''pending'', row_date = JString ''2024-11-03''\<rparr>],
       events =
         [SqlCall (INSERT_INTO_invoices (JString ''c1'') (JNumber (Finite 25000 0))
                     (JString ''pending'') (JString ''2024-11-03'')),
          RevalidatePath ''/dashboard/invoices'']\<rparr>)"
    by code_simp+
  have f: "JString (localDay lateEnv) \<noteq> JString ''2024-11-03''"
    unfolding d by simp
  show ?thesis
    using a b c d e f by blast
qed


subsection \<open>What an update leaves alone\<close>

text \<open>
  C5. For every identifier and every form \<open>UpdateInvoice\<close> accepts, \<open>updateInvoice\<close>
  sends one statement, the update of customer reference, amount and status of the rows
  with that identifier. Whether the statement raises or not, every row of the table keeps
  its identifier and its date, in the same order, and the rows with another identifier
  are kept as they are.
\<close>

theorem update_frame:
  assumes "safeParse UpdateInvoice (formFields fd) = ParseSuccess data"
  shows "let c = formData_get fd ''customerId'';
             a = JNumber (js_mul (Number (formData_get fd ''amount'')) (Finite 100 0));
             s = formData_get fd ''status'';
             upd = UPDATE_invoices c a s i;
             w' = snd (updateInvoice e i p fd w)
         in events w' = events w @ SqlCall upd #
              (if sql_raises e upd = None then [RevalidatePath ''/dashboard/invoices''] else [])
          \<and> invoices w' =
              (if sql_raises e upd = None
               then map (\<lambda>r. if row_id r = i
                              then r\<lparr>row_customer_id := c, row_amount := a, row_status := s\<rparr>
                              else r) (invoices w)
               else invoices w)
          \<and> map row_id (invoices w') = map row_id (invoices w)
          \<and> map row_date (invoices w') = map row_date (invoices w)
          \<and> filter (\<lambda>r. row_id r \<noteq> i) (invoices w') = filter (\<lambda>r. row_id r \<noteq> i) (invoices w)"
proof -
  let ?upd = "UPDATE_invoices (formData_get fd ''customerId'')
                (JNumber (js_mul (Number (formData_get fd ''amount'')) (Finite 100 0)))
                (formData_get fd ''status'') i"
  have w': "snd (updateInvoice e i p fd w) =
      (case sql_raises e ?upd of
         Some err \<Rightarrow> w\<lparr>events := events w @ [SqlCall ?upd]\<rparr>
       | None \<Rightarrow> w\<lparr>invoices := execute e ?upd (invoices w),
                    events := events w @ [SqlCall ?upd, RevalidatePath ''/dashboard/invoices'']\<rparr>)"
    by (simp add: updateInvoice_accepted [OF assms] Let_def del: js_mul.simps execute.simps
        split: option.split)
  show ?thesis
  proof (cases "sql_raises e ?upd")
    case None
    then show ?thesis
      unfolding Let_def w'
      using update_keeps_ids [of e _ _ _ i "invoices w"] update_keeps_dates [of e _ _ _ i "invoices w"]
        update_keeps_others [of i e _ _ _ "invoices w"]
      by (simp del: js_mul.simps)
  next
    case (Some err)
    then show ?thesis
      unfolding Let_def w' by (simp del: js_mul.simps)
  qed
qed

text \<open>
  Updating \<^verbatim>\<open>inv-42\<close> in a table of two rows: its customer, amount and status
  change, its date stays \<^verbatim>\<open>2024-10-01\<close>, and the row \<^verbatim>\<open>inv-43\<close> is as before.
\<close>

theorem update_frame_witness:
  "safeParse UpdateInvoice (formFields (form ''c2'' ''99.50'' ''paid'')) =
     ParseSuccess [(''customerId'', JString ''c2''), (''amount'', JNumber (Finite 199 1)),
                   (''status'', JString ''paid'')]
   \<and> updateInvoice sampleEnv ''inv-42'' noState (form ''c2'' ''99.50'' ''paid'') sampleWorld =
     (Redirects ''/dashboard/invoices'',
      \<lparr>invoices =
         [\<lparr>row_id = ''inv-42'', row_customer_id = JString ''c2'',
           row_amount = JNumber (Finite 9950 0), row_status = JString ''paid'',
           row_date = JString ''2024-10-01''\<rparr>,
          \<lparr>row_id = ''inv-43'', row_customer_id = JString ''c3'',
           row_amount = JNumber (Finite 700 0), row_status = JString ''paid'',
           row_date = JString ''2024-10-02''\<rparr>],
       events =
         [SqlCall (UPDATE_invoices (JString ''c2'') (JNumber (Finite 9950 0)) (JString ''paid'') ''inv-42''),
          RevalidatePath ''/dashboard/invoices'']\<rparr>)
   \<and> map row_id (invoices (snd (updateInvoice sampleEnv ''inv-42'' noState
          (form ''c2'' ''99.50'' ''paid'') sampleWorld))) = map row_id (invoices sampleWorld)
   \<and> map row_date (invoices (snd (updateInvoice sampleEnv ''inv-42'' noState
          (form ''c2'' ''99.50'' ''paid'') sampleWorld))) = map row_date (invoices sampleWorld)"
proof -
  have h: "safeParse UpdateInvoice (formFields (form ''c2'' ''99.50'' ''paid'')) =
     ParseSuccess [(''customerId'', JString ''c2''), (''amount'', JNumber (Finite 199 1)),
                   (''status'', JString ''paid'')]"
    by code_simp
  have r: "updateInvoice sampleEnv ''inv-42'' noState (form ''c2'' ''99.50'' ''paid'') sampleWorld =
     (Redirects ''/dashboard/invoices'',
      \<lparr>invoices =
         [\<lparr>row_id = ''inv-42'', row_customer_id = JString ''c2'',
           row_amount = JNumber (Finite 9950 0), row_status = JString ''paid'',
           row_date = JString ''2024-10-01''\<rparr>,
          \<lparr>row_id = ''inv-43'', row_customer_id = JString ''c3'',
           row_amount = JNumber (Finite 700 0), row_status = JString ''paid'',
           row_date = JString ''2024-10-02''\<rparr>],
       events =
         [SqlCall (UPDATE_invoices (JString ''c2'') (JNumber (Finite 9950 0)) (JString ''paid'') ''inv-42''),
          RevalidatePath ''/dashboard/invoices'']\<rparr>)"
    by code_simp
  have "map row_id (invoices (snd (updateInvoice sampleEnv ''inv-42'' noState
          (form ''c2'' ''99.50'' ''paid'') sampleWorld))) = map row_id (invoices sampleWorld)
      \<and> map row_date (invoices (snd (updateInvoice sampleEnv ''inv-42'' noState
          (form ''c2'' ''99.50'' ''paid'') sampleWorld))) = map row_date (invoices sampleWorld)"
    using update_frame [OF h, where e = sampleEnv and i = "''inv-42''" and p = noState
        and w = sampleWorld]
    unfolding Let_def by (elim conjE) (rule conjI)
  then show ?thesis
    using h r by blast
qed


subsection \<open>A statement that raises\<close>

text \<open>
  C6. For every form that passes validation, when the statement \<open>createInvoice\<close> sends
  raises, the action returns a state with no \<^verbatim>\<open>errors\<close> and the message
  \<^verbatim>\<open>Database Error: Failed to create invoice\<close>; when the statement \<open>updateInvoice\<close>
  sends raises, it returns a state with no \<^verbatim>\<open>errors\<close> and the message
  \<^verbatim>\<open>Database Error: Failed to update database\<close>. In both cases the call of the
  statement is all that happened to the world: the table is unchanged, no path was
  revalidated, and the action returned rather than redirected.
\<close>

theorem persistence_failure:
  assumes "safeParse CreateInvoice (formFields fd) = ParseSuccess data"
    and "safeParse UpdateInvoice (formFields fd) = ParseSuccess data'"
  shows "let cents = JNumber (js_mul (Number (formData_get fd ''amount'')) (Finite 100 0));
             ins = INSERT_INTO_invoices (formData_get fd ''customerId'') cents
                     (formData_get fd ''status'') (JString (isoDay (now e)));
             upd = UPDATE_invoices (formData_get fd ''customerId'') cents
                     (formData_get fd ''status'') i
         in (sql_raises e ins \<noteq> None \<longrightarrow>
               createInvoice e p fd w =
                 (Returns \<lparr>errors = None,
                           message = Some ''Database Error: Failed to create invoice''\<rparr>,
                  w\<lparr>events := events w @ [SqlCall ins]\<rparr>))
          \<and> (sql_raises e upd \<noteq> None \<longrightarrow>
               updateInvoice e i p fd w =
                 (Returns \<lparr>errors = None,
                           message = Some ''Database Error: Failed to update database''\<rparr>,
                  w\<lparr>events := events w @ [SqlCall upd]\<rparr>))"
  unfolding Let_def
  by (auto simp add: createInvoice_accepted [OF assms(1)] updateInvoice_accepted [OF assms(2)] Let_def
      simp del: js_mul.simps)

text \<open>A form in order, sent while the database refuses every statement.\<close>

theorem persistence_failure_witness:
  "safeParse CreateInvoice (formFields (form ''c1'' ''250.00'' ''pending'')) =
     ParseSuccess [(''customerId'', JString ''c1''), (''amount'', JNumber (Finite 250 0)),
                   (''status'', JString ''pending'')]
   \<and> safeParse UpdateInvoice (formFields (form ''c1'' ''250.00'' ''pending'')) =
     ParseSuccess [(''customerId'', JString ''c1''), (''amount'', JNumber (Finite 250 0)),
                   (''status'', JString ''pending'')]
   \<and> sql_raises downEnv
        (INSERT_INTO_invoices (JString ''c1'') (JNumber (Finite 25000 0)) (JString ''pending'')
           (JString ''2024-11-03'')) \<noteq> None
   \<and> sql_raises downEnv
        (UPDATE_invoices (JString ''c1'') (JNumber (Finite 25000 0)) (JString ''pending'') ''inv-42'')
        \<noteq> None
   \<and> createInvoice downEnv noState (form ''c1'' ''250.00'' ''pending'') sampleWorld =
       (Returns \<lparr>errors = None, message = Some ''Database Error: Failed to create invoice''\<rparr>,
        sampleWorld\<lparr>events := events sampleWorld @
          [SqlCall (INSERT_INTO_invoices (JString ''c1'') (JNumber (Finite 25000 0))
                      (JString ''pending'') (JString ''2024-11-03''))]\<rparr>)
   \<and> updateInvoice downEnv ''inv-42'' noState (form ''c1'' ''250.00'' ''pending'') sampleWorld =
       (Returns \<lparr>errors = None, message = Some ''Database Error: Failed to update database''\<rparr>,
        sampleWorld\<lparr>events := events sampleWorld @
          [SqlCall (UPDATE_invoices (JString ''c1'') (JNumber (Finite 25000 0))
                      (JString ''pending'') ''inv-42'')]\<rparr>)"
proof -
  have h1: "safeParse CreateInvoice (formFields (form ''c1'' ''250.00'' ''pending'')) =
     ParseSuccess [(''customerId'', JString ''c1''), (''amount'', JNumber (Finite 250 0)),
                   (''status'', JString ''pending'')]"
    by code_simp
  have h2: "safeParse UpdateInvoice (formFields (form ''c1'' ''250.00'' ''pending'')) =
     ParseSuccess [(''customerId'', JString ''c1''), (''amount'', JNumber (Finite 250 0)),
                   (''status'', JString ''pending'')]"
    by code_simp
  have v: "JNumber (js_mul (Number (JString ''250.00'')) (Finite 100 0)) = JNumber (Finite 25000 0)"
    by code_simp
  have d: "isoDay (now downEnv) = ''2024-11-03''"
    by code_simp
  have r1: "sql_raises downEnv
        (INSERT_INTO_invoices (JString ''c1'') (JNumber (Finite 25000 0)) (JString ''pending'')
           (JString ''2024-11-03'')) \<noteq> None"
    and r2: "sql_raises downEnv
        (UPDATE_invoices (JString ''c1'') (JNumber (Finite 25000 0)) (JString ''pending'') ''inv-42'')
        \<noteq> None"
    by (simp_all add: downEnv_fields)
  show ?thesis
    using h1 h2 r1 r2
      persistence_failure [OF h1 h2, where e = downEnv and i = "''inv-42''" and p = noState
        and w = sampleWorld]
    unfolding Let_def form_get v d by blast
qed


subsection \<open>Deletion\<close>

text \<open>
  C7. For every identifier, \<open>deleteInvoice\<close> issues exactly one statement, the deletion
  of the rows with that identifier. When the statement raises, the same error leaves the
  action and nothing else is called; when it does not raise, the listing path is
  revalidated, after the statement, and the action returns.
\<close>

theorem deleteInvoice_outcomes:
  "deleteInvoice e i w =
     (case sql_raises e (DELETE_FROM_invoices i) of
        Some err \<Rightarrow> (Throws err, w\<lparr>events := events w @ [SqlCall (DELETE_FROM_invoices i)]\<rparr>)
      | None \<Rightarrow>
          (Returns (),
           w\<lparr>invoices := filter (\<lambda>r. row_id r \<noteq> i) (invoices w),
             events := events w @ [SqlCall (DELETE_FROM_invoices i),
                                   RevalidatePath ''/dashboard/invoices'']\<rparr>))"
  by (simp add: deleteInvoice_def sql_def revalidatePath_def split: option.split)

text \<open>Deleting \<^verbatim>\<open>inv-42\<close> with the database up, and with the database down.\<close>

theorem deleteInvoice_outcomes_witness:
  "deleteInvoice sampleEnv ''inv-42'' sampleWorld =
     (Returns (),
      \<lparr>invoices =
         [\<lparr>row_id = ''inv-43'', row_customer_id = JString ''c3'',
           row_amount = JNumber (Finite 700 0), row_status = JString ''paid'',
           row_date = JString ''2024-10-02''\<rparr>],
       events = [SqlCall (DELETE_FROM_invoices ''inv-42''), RevalidatePath ''/dashboard/invoices'']\<rparr>)
   \<and> deleteInvoice downEnv ''inv-42'' sampleWorld =
     (Throws (OtherError ''connection refused''),
      sampleWorld\<lparr>events := [SqlCall (DELETE_FROM_invoices ''inv-42'')]\<rparr>)"
  using deleteInvoice_outcomes [where e = sampleEnv and i = "''inv-42''" and w = sampleWorld]
    deleteInvoice_outcomes [where e = downEnv and i = "''inv-42''" and w = sampleWorld]
  by (simp add: sampleEnv_def downEnv_def sampleWorld_def)


subsection \<open>Sign-in\<close>

text \<open>
  C8. \<open>authenticate\<close> calls \<^verbatim>\<open>signIn('credentials', formData)\<close> once. When the call
  raises an \<^verbatim>\<open>AuthError\<close> of type \<^verbatim>\<open>CredentialsSignin\<close> it returns the string
  \<^verbatim>\<open>Invalid credentials.\<close>; for an \<^verbatim>\<open>AuthError\<close> of any other type it returns
  \<^verbatim>\<open>Something went wrong.\<close>; an error that is no \<^verbatim>\<open>AuthError\<close> is raised again
  unchanged; and when the call does not raise, it returns no value.
\<close>

theorem authenticate_outcomes:
  "authenticate e prevState formData w =
     ((case signIn_raises e ''credentials'' formData of
         None \<Rightarrow> Returns None
       | Some (AuthError ty) \<Rightarrow>
           Returns (Some (if ty = ''CredentialsSignin'' then ''Invalid credentials.''
                          else ''Something went wrong.''))
       | Some (OtherError x) \<Rightarrow> Throws (OtherError x)),
      w\<lparr>events := events w @ [SignIn ''credentials'' formData]\<rparr>)"
  by (simp add: authenticate_def Let_def split: option.split thrown.split)

text \<open>The four cases, one sign-in each.\<close>

theorem authenticate_outcomes_witness:
  "authenticate (sampleEnv\<lparr>signIn_raises := (\<lambda>p fd. Some (AuthError ''CredentialsSignin''))\<rparr>)
      None (form ''u'' ''p'' ''x'') sampleWorld =
     (Returns (Some ''Invalid credentials.''),
      sampleWorld\<lparr>events := events sampleWorld @ [SignIn ''credentials'' (form ''u'' ''p'' ''x'')]\<rparr>)
   \<and> fst (authenticate (sampleEnv\<lparr>signIn_raises := (\<lambda>p fd. Some (AuthError ''CallbackRouteError''))\<rparr>)
      None (form ''u'' ''p'' ''x'') sampleWorld) = Returns (Some ''Something went wrong.'')
   \<and> fst (authenticate (sampleEnv\<lparr>signIn_raises := (\<lambda>p fd. Some (OtherError ''NEXT_REDIRECT''))\<rparr>)
      None (form ''u'' ''p'' ''x'') sampleWorld) = Throws (OtherError ''NEXT_REDIRECT'')
   \<and> fst (authenticate sampleEnv None (form ''u'' ''p'' ''x'') sampleWorld) = Returns None"
  using authenticate_outcomes [where e = "sampleEnv\<lparr>signIn_raises := (\<lambda>p fd. Some (AuthError ''CredentialsSignin''))\<rparr>"
      and prevState = None and formData = "form ''u'' ''p'' ''x''" and w = sampleWorld]
    authenticate_outcomes [where e = "sampleEnv\<lparr>signIn_raises := (\<lambda>p fd. Some (AuthError ''CallbackRouteError''))\<rparr>"
      and prevState = None and formData = "form ''u'' ''p'' ''x''" and w = sampleWorld]
    authenticate_outcomes [where e = "sampleEnv\<lparr>signIn_raises := (\<lambda>p fd. Some (OtherError ''NEXT_REDIRECT''))\<rparr>"
      and prevState = None and formData = "form ''u'' ''p'' ''x''" and w = sampleWorld]
    authenticate_outcomes [where e = sampleEnv and prevState = None
      and formData = "form ''u'' ''p'' ''x''" and w = sampleWorld]
  by (simp add: sampleEnv_def)


subsection \<open>One schema for both actions\<close>

text \<open>
  C9. \<open>CreateInvoice\<close> and \<open>UpdateInvoice\<close> are the same schema, so on every form the two
  actions decide alike. When the form is rejected, both return the same
  \<^verbatim>\<open>errors\<close>, the field errors of the same issues, and differ in the summary message
  only; when it is accepted, neither returns \<^verbatim>\<open>errors\<close>: each either redirects or
  reports that its statement raised.
\<close>

theorem same_validation:
  "CreateInvoice = UpdateInvoice
   \<and> (case safeParse CreateInvoice (formFields fd) of
        ParseError issues \<Rightarrow>
          safeParse UpdateInvoice (formFields fd) = ParseError issues
          \<and> createInvoice e p fd w =
              (Returns \<lparr>errors = Some (fieldErrors issues),
                        message = Some ''Missing Fields. Failed to create invoices.''\<rparr>, w)
          \<and> updateInvoice e' i p' fd w' =
              (Returns \<lparr>errors = Some (fieldErrors issues),
                        message = Some ''Missing Fields. Failed to update invoice''\<rparr>, w')
      | ParseSuccess data \<Rightarrow>
          safeParse UpdateInvoice (formFields fd) = ParseSuccess data
          \<and> fst (createInvoice e p fd w) \<in>
              {Returns \<lparr>errors = None, message = Some ''Database Error: Failed to create invoice''\<rparr>,
               Redirects ''/dashboard/invoices''}
          \<and> fst (updateInvoice e' i p' fd w') \<in>
              {Returns \<lparr>errors = None, message = Some ''Database Error: Failed to update database''\<rparr>,
               Redirects ''/dashboard/invoices''})"
proof (cases "safeParse CreateInvoice (formFields fd)")
  case (ParseSuccess data)
  then have u: "safeParse UpdateInvoice (formFields fd) = ParseSuccess data"
    by (simp add: UpdateInvoice_shape)
  show ?thesis
    using ParseSuccess u
    by (auto simp add: createInvoice_accepted [OF ParseSuccess] updateInvoice_accepted [OF u]
        UpdateInvoice_shape Let_def simp del: js_mul.simps split: option.split)
next
  case (ParseError issues)
  then show ?thesis
    by (simp add: UpdateInvoice_shape createInvoice_def updateInvoice_def)
qed

text \<open>
  A form with a text for an amount and an unknown status, sent to \<open>createInvoice\<close> with
  the database up and to \<open>updateInvoice\<close> with the database down.
\<close>

theorem same_validation_witness:
  "CreateInvoice = UpdateInvoice
   \<and> safeParse CreateInvoice (formFields (form '''' ''abc'' ''overdue'')) =
       ParseError
         [ZodIssue invalid_type [''amount''] ''Expected number, received nan'',
          ZodIssue invalid_enum_value [''status'']
            (defaultInvalidEnumValue [''paid'', ''pending''] ''overdue'')]
   \<and> safeParse UpdateInvoice (formFields (form '''' ''abc'' ''overdue'')) =
       ParseError
         [ZodIssue invalid_type [''amount''] ''Expected number, received nan'',
          ZodIssue invalid_enum_value [''status'']
            (defaultInvalidEnumValue [''paid'', ''pending''] ''overdue'')]
   \<and> createInvoice sampleEnv noState (form '''' ''abc'' ''overdue'') sampleWorld =
       (Returns \<lparr>errors = Some
           [(''amount'', [''Expected number, received nan'']),
            (''status'', [defaultInvalidEnumValue [''paid'', ''pending''] ''overdue''])],
          message = Some ''Missing Fields. Failed to create invoices.''\<rparr>, sampleWorld)
   \<and> updateInvoice downEnv ''inv-42'' noState (form '''' ''abc'' ''overdue'') sampleWorld =
       (Returns \<lparr>errors = Some
           [(''amount'', [''Expected number, received nan'']),
            (''status'', [defaultInvalidEnumValue [''paid'', ''pending''] ''overdue''])],
          message = Some ''Missing Fields. Failed to update invoice''\<rparr>, sampleWorld)"
proof -
  have h: "safeParse CreateInvoice (formFields (form '''' ''abc'' ''overdue'')) =
       ParseError
         [ZodIssue invalid_type [''amount''] ''Expected number, received nan'',
          ZodIssue invalid_enum_value [''status'']
            (defaultInvalidEnumValue [''paid'', ''pending''] ''overdue'')]"
    by code_simp
  have f: "fieldErrors
         [ZodIssue invalid_type [''amount''] ''Expected number, received nan'',
          ZodIssue invalid_enum_value [''status'']
            (defaultInvalidEnumValue [''paid'', ''pending''] ''overdue'')] =
           [(''amount'', [''Expected number, received nan'']),
            (''status'', [defaultInvalidEnumValue [''paid'', ''pending''] ''overdue''])]"
    by code_simp
  show ?thesis
    using h same_validation [where fd = "form '''' ''abc'' ''overdue''" and e = sampleEnv and p = noState
        and w = sampleWorld and e' = downEnv and i = "''inv-42''" and p' = noState and w' = sampleWorld,
        unfolded h safeParseReturn.case f]
    by blast
qed


subsection \<open>The two custom messages\<close>

text \<open>
  C10, as the code has it. The messages \<^verbatim>\<open>Please select a customer\<close> and
  \<^verbatim>\<open>Please select an invoice status\<close> are given as \<^verbatim>\<open>invalid_type_error\<close> only.
  \<open>createInvoice\<close> and \<open>updateInvoice\<close> return each of them exactly when the value read
  for its field is not a string, that is when the field is absent from the form (read as
  null) or holds a file. A customerId that is a string, the empty string too, gets no
  customerId error. A status that is a string other than \<^verbatim>\<open>paid\<close> and
  \<^verbatim>\<open>pending\<close> gets the library's message for a value outside the enumeration, not the
  custom one. The value read for a field is null exactly when the form has no entry of
  that name.
\<close>

theorem custom_messages:
  "errorsAt (createInvoice e p fd w) ''customerId'' =
     (case formData_get fd ''customerId'' of
        JString x \<Rightarrow> None
      | _ \<Rightarrow> Some [''Please select a customer''])
   \<and> errorsAt (updateInvoice e i p fd w) ''customerId'' =
     (case formData_get fd ''customerId'' of
        JString x \<Rightarrow> None
      | _ \<Rightarrow> Some [''Please select a customer''])
   \<and> errorsAt (createInvoice e p fd w) ''status'' =
     (case formData_get fd ''status'' of
        JString x \<Rightarrow>
          if x = ''paid'' \<or> x = ''pending'' then None
          else Some [''Invalid enum value. Expected '' @ quoted ''paid'' @ '' | '' @ quoted ''pending''
                       @ '', received '' @ quoted x]
      | _ \<Rightarrow> Some [''Please select an invoice status''])
   \<and> errorsAt (updateInvoice e i p fd w) ''status'' =
     (case formData_get fd ''status'' of
        JString x \<Rightarrow>
          if x = ''paid'' \<or> x = ''pending'' then None
          else Some [''Invalid enum value. Expected '' @ quoted ''paid'' @ '' | '' @ quoted ''pending''
                       @ '', received '' @ quoted x]
      | _ \<Rightarrow> Some [''Please select an invoice status''])
   \<and> (formData_get fd ''customerId'' = Null \<longleftrightarrow> map_of fd ''customerId'' = None)
   \<and> (formData_get fd ''status'' = Null \<longleftrightarrow> map_of fd ''status'' = None)"
proof -
  have c: "(if \<forall>x. formData_get fd ''customerId'' \<noteq> JString x then Some [''Please select a customer'']
            else None) =
           (case formData_get fd ''customerId'' of
              JString x \<Rightarrow> None
            | _ \<Rightarrow> Some [''Please select a customer''])"
    by (cases "formData_get fd ''customerId''") simp_all
  have m: "defaultInvalidEnumValue [''paid'', ''pending''] x =
             ''Invalid enum value. Expected '' @ quoted ''paid'' @ '' | '' @ quoted ''pending''
                       @ '', received '' @ quoted x" for x
    by (simp add: defaultInvalidEnumValue_def)
  have n: "(formData_get fd k = Null \<longleftrightarrow> map_of fd k = None)" for k
    by (simp add: formData_get_def split: option.split formDataEntryValue.split)
  show ?thesis
    unfolding errorsAt_create errorsAt_update fieldErrors_customerId fieldErrors_status c m
    using n by simp
qed

text \<open>
  A form with nothing but an amount, and a form whose customerId is empty and whose
  status is \<^verbatim>\<open>overdue\<close>.
\<close>

theorem custom_messages_witness:
  "errorsAt (createInvoice sampleEnv noState [(''amount'', EntryString ''10'')] sampleWorld) ''customerId''
     = Some [''Please select a customer'']
   \<and> errorsAt (createInvoice sampleEnv noState [(''amount'', EntryString ''10'')] sampleWorld) ''status''
     = Some [''Please select an invoice status'']
   \<and> errorsAt (updateInvoice sampleEnv ''inv-42'' noState (form '''' ''10'' ''overdue'') sampleWorld)
       ''customerId'' = None
   \<and> errorsAt (updateInvoice sampleEnv ''inv-42'' noState (form '''' ''10'' ''overdue'') sampleWorld)
       ''status'' =
       Some [''Invalid enum value. Expected '' @ quoted ''paid'' @ '' | '' @ quoted ''pending''
               @ '', received '' @ quoted ''overdue'']"
proof -
  have a: "formData_get [(''amount'', EntryString ''10'')] ''customerId'' = Null"
    "formData_get [(''amount'', EntryString ''10'')] ''status'' = Null"
    by (simp_all add: formData_get_def)
  show ?thesis
    using custom_messages [where e = sampleEnv and p = noState and w = sampleWorld
        and fd = "[(''amount'', EntryString ''10'')]" and i = "''inv-42''"]
      custom_messages [where e = sampleEnv and p = noState and w = sampleWorld
        and fd = "form '''' ''10'' ''overdue''" and i = "''inv-42''"]
    unfolding a form_get by simp
qed

text \<open>
  A form whose customerId entry is a file: the field is present, the value read for it
  is not null, and the action answers with \<^verbatim>\<open>Please select a customer\<close> all the same.
\<close>

theorem file_customerId_counterexample:
  "map_of [(''customerId'', EntryFile ''logo.png''), (''amount'', EntryString ''10''),
           (''status'', EntryString ''paid'')] ''customerId'' = Some (EntryFile ''logo.png'')
   \<and> formData_get [(''customerId'', EntryFile ''logo.png''), (''amount'', EntryString ''10''),
           (''status'', EntryString ''paid'')] ''customerId'' = JFile ''logo.png''
   \<and> createInvoice sampleEnv noState
        [(''customerId'', EntryFile ''logo.png''), (''amount'', EntryString ''10''),
         (''status'', EntryString ''paid'')] sampleWorld =
       (Returns \<lparr>errors = Some [(''customerId'', [''Please select a customer''])],
                 message = Some ''Missing Fields. Failed to create invoices.''\<rparr>, sampleWorld)"
  by code_simp

end
